theory Spec2Isabelle
  imports Main "HOL-Library.Multiset"
begin

section \<open>The relational store (database_schema.sql)\<close>

text \<open>
  Rows are records, tables are lists in insertion order. A UUID is an opaque identifier,
  drawn from a supply that never repeats (\<open>uuid_generate_v4()\<close>); a timestamp is a point
  on a discrete clock. Nullable columns are options. The constraints modelled are those
  the schema declares: column types and lengths, \<open>NOT NULL\<close>, \<open>UNIQUE\<close>, \<open>CHECK\<close>,
  the foreign keys with their \<open>ON DELETE CASCADE\<close>, the defaults and the
  \<open>updated_at\<close> triggers. A statement is atomic and the connection does not fail.
\<close>

type_synonym uuid = nat
type_synonym timestamp = nat

record user_row =
  u_id :: uuid
  u_email :: string
  u_password_hash :: string
  u_name :: string
  u_created_at :: timestamp
  u_updated_at :: timestamp
  u_last_login :: "timestamp option"
  u_is_active :: "bool option"

record conversation_row =
  c_id :: uuid
  c_user_id :: uuid
  c_title :: string
  c_created_at :: timestamp
  c_updated_at :: timestamp
  c_is_archived :: "bool option"

record message_row =
  m_id :: uuid
  m_conversation_id :: uuid
  m_role :: string
  m_content :: string
  m_created_at :: timestamp
  m_message_order :: int

record settings_row =
  s_id :: uuid
  s_user_id :: uuid
  s_preferred_model :: "string option"
  s_use_builtin_key :: "bool option"
  s_created_at :: timestamp
  s_updated_at :: timestamp

record db =
  users :: "user_row list"
  conversations :: "conversation_row list"
  messages :: "message_row list"
  user_settings :: "settings_row list"
  next_uuid :: uuid

definition empty_db :: db where
  "empty_db = \<lparr>users = [], conversations = [], messages = [], user_settings = [], next_uuid = 1\<rparr>"

text \<open>What a statement or a handler can throw; the handlers catch it and answer 500.\<close>

datatype exn =
  StringTooLong | UniqueViolation | NotNullViolation | CheckViolation
  | ForeignKeyViolation | NumericOutOfRange | InvalidUuid | TypeError

text \<open>
  Storing into \<open>VARCHAR(n)\<close>: a longer value is an error unless the excess is all spaces,
  which are cut.
\<close>

definition store_varchar :: "nat \<Rightarrow> string \<Rightarrow> exn + string" where
  "store_varchar n s =
     (if length s \<le> n then Inr s
      else if list_all (\<lambda>c. c = CHR '' '') (drop n s) then Inr (take n s)
      else Inl StringTooLong)"

definition INT_MAX :: int where
  "INT_MAX = 2147483647"

definition INT_MIN :: int where
  "INT_MIN = - 2147483648"

subsection \<open>Statements\<close>

text \<open>\<open>SELECT id FROM users WHERE email = $1\<close>\<close>

definition sql_users_by_email :: "db \<Rightarrow> string \<Rightarrow> user_row list" where
  "sql_users_by_email d email = filter (\<lambda>u. u_email u = email) (users d)"

text \<open>\<open>SELECT * FROM users WHERE email = $1 AND is_active = true\<close>\<close>

definition sql_active_users_by_email :: "db \<Rightarrow> string \<Rightarrow> user_row list" where
  "sql_active_users_by_email d email =
     filter (\<lambda>u. u_email u = email \<and> u_is_active u = Some True) (users d)"

text \<open>
  \<open>INSERT INTO users (name, email, password_hash) VALUES ($1, $2, $3) RETURNING ...\<close>:
  three \<open>VARCHAR(255)\<close> columns, \<open>email\<close> unique, the other columns at their defaults.
\<close>

definition sql_insert_user :: "db \<Rightarrow> timestamp \<Rightarrow> string \<Rightarrow> string \<Rightarrow> string \<Rightarrow> exn + db \<times> user_row" where
  "sql_insert_user d now name email hash =
     (case store_varchar 255 name of Inl e \<Rightarrow> Inl e | Inr name' \<Rightarrow>
     (case store_varchar 255 email of Inl e \<Rightarrow> Inl e | Inr email' \<Rightarrow>
     (case store_varchar 255 hash of Inl e \<Rightarrow> Inl e | Inr hash' \<Rightarrow>
      if list_ex (\<lambda>u. u_email u = email') (users d) then Inl UniqueViolation
      else
        let row = \<lparr>u_id = next_uuid d, u_email = email', u_password_hash = hash',
                   u_name = name', u_created_at = now, u_updated_at = now,
                   u_last_login = None, u_is_active = Some True\<rparr>
        in Inr (d\<lparr>users := users d @ [row], next_uuid := Suc (next_uuid d)\<rparr>, row))))"

text \<open>
  \<open>UPDATE users SET last_login = NOW() WHERE id = $1\<close>; the \<open>BEFORE UPDATE\<close> trigger
  sets \<open>updated_at\<close> on every updated row.
\<close>

definition sql_touch_login :: "db \<Rightarrow> timestamp \<Rightarrow> uuid \<Rightarrow> db" where
  "sql_touch_login d now i =
     d\<lparr>users := map (\<lambda>u. if u_id u = i then u\<lparr>u_last_login := Some now, u_updated_at := now\<rparr> else u)
                     (users d)\<rparr>"

text \<open>
  A path parameter \<open>:id\<close> is text; \<open>None\<close> stands for text that is not a UUID, on which
  the first statement comparing it with a \<open>UUID\<close> column throws.
\<close>

type_synonym param = "uuid option"

text \<open>\<open>SELECT id FROM conversations WHERE id = $1 AND user_id = $2\<close>\<close>

definition sql_conv_check :: "db \<Rightarrow> uuid \<Rightarrow> uuid \<Rightarrow> uuid list" where
  "sql_conv_check d i uid =
     map c_id (filter (\<lambda>c. c_id c = i \<and> c_user_id c = uid) (conversations d))"

text \<open>\<open>SELECT * FROM conversations WHERE id = $1\<close>\<close>

definition sql_conversation :: "db \<Rightarrow> uuid \<Rightarrow> conversation_row list" where
  "sql_conversation d i = filter (\<lambda>c. c_id c = i) (conversations d)"

text \<open>\<open>SELECT ... FROM messages WHERE conversation_id = $1 ORDER BY message_order ASC\<close>\<close>

definition sql_messages_of :: "db \<Rightarrow> uuid \<Rightarrow> message_row list" where
  "sql_messages_of d i =
     sort_key m_message_order (filter (\<lambda>m. m_conversation_id m = i) (messages d))"

text \<open>
  \<open>INSERT INTO conversations (user_id, title) VALUES ($1, $2) RETURNING *\<close>: the user
  must exist (foreign key), the title is \<open>VARCHAR(255)\<close>.
\<close>

definition sql_insert_conversation :: "db \<Rightarrow> timestamp \<Rightarrow> uuid \<Rightarrow> string \<Rightarrow> exn + db \<times> conversation_row" where
  "sql_insert_conversation d now uid title =
     (case store_varchar 255 title of Inl e \<Rightarrow> Inl e | Inr title' \<Rightarrow>
      if \<not> list_ex (\<lambda>u. u_id u = uid) (users d) then Inl ForeignKeyViolation
      else
        let row = \<lparr>c_id = next_uuid d, c_user_id = uid, c_title = title', c_created_at = now,
                   c_updated_at = now, c_is_archived = Some False\<rparr>
        in Inr (d\<lparr>conversations := conversations d @ [row], next_uuid := Suc (next_uuid d)\<rparr>, row))"

text \<open>\<open>UPDATE conversations SET title = $1, updated_at = NOW() WHERE id = $2 RETURNING *\<close>\<close>

definition sql_set_title :: "db \<Rightarrow> timestamp \<Rightarrow> uuid \<Rightarrow> string \<Rightarrow> exn + db \<times> conversation_row list" where
  "sql_set_title d now i title =
     (if \<not> list_ex (\<lambda>c. c_id c = i) (conversations d) then Inr (d, [])
      else (case store_varchar 255 title of Inl e \<Rightarrow> Inl e | Inr title' \<Rightarrow>
        let upd = (\<lambda>c. c\<lparr>c_title := title', c_updated_at := now\<rparr>)
        in Inr (d\<lparr>conversations := map (\<lambda>c. if c_id c = i then upd c else c) (conversations d)\<rparr>,
                map upd (filter (\<lambda>c. c_id c = i) (conversations d)))))"

text \<open>
  \<open>DELETE FROM conversations WHERE id = $1\<close>. The foreign key of \<open>messages\<close> is declared
  \<open>REFERENCES conversations(id) ON DELETE CASCADE\<close>: the rows that refer to a deleted
  conversation go with it.
\<close>

definition sql_delete_conversation :: "db \<Rightarrow> uuid \<Rightarrow> db" where
  "sql_delete_conversation d i =
     d\<lparr>conversations := filter (\<lambda>c. c_id c \<noteq> i) (conversations d),
       messages := filter (\<lambda>m. m_conversation_id m \<noteq> i) (messages d)\<rparr>"

text \<open>The \<open>message_order\<close> column of one conversation, in storage order.\<close>

definition orders_of :: "db \<Rightarrow> uuid \<Rightarrow> int list" where
  "orders_of d i = map m_message_order (filter (\<lambda>m. m_conversation_id m = i) (messages d))"

text \<open>\<open>COALESCE(MAX(message_order), 0)\<close> over the rows of one conversation.\<close>

definition coalesce_max :: "int list \<Rightarrow> int" where
  "coalesce_max xs = (case xs of [] \<Rightarrow> 0 | x # rest \<Rightarrow> fold max rest x)"

text \<open>
  \<open>SELECT COALESCE(MAX(message_order), 0) + 1 as next_order FROM messages WHERE
  conversation_id = $1\<close>; the sum is an \<open>INTEGER\<close>.
\<close>

definition sql_next_order :: "db \<Rightarrow> uuid \<Rightarrow> exn + int" where
  "sql_next_order d i =
     (let n = coalesce_max (orders_of d i) + 1
      in if n > INT_MAX then Inl NumericOutOfRange else Inr n)"

text \<open>\<open>SELECT COALESCE(MAX(message_order), 0) as max_order FROM messages WHERE ...\<close>\<close>

definition sql_max_order :: "db \<Rightarrow> uuid \<Rightarrow> int" where
  "sql_max_order d i = coalesce_max (orders_of d i)"

text \<open>
  \<open>INSERT INTO messages (conversation_id, role, content, message_order) VALUES (...)
  RETURNING *\<close>: \<open>role\<close> is \<open>VARCHAR(20) NOT NULL\<close> with a \<open>CHECK\<close>, \<open>content\<close> is
  \<open>NOT NULL\<close>, \<open>message_order\<close> an \<open>INTEGER\<close>, and the conversation must exist.
\<close>

definition sql_insert_message ::
  "db \<Rightarrow> timestamp \<Rightarrow> uuid \<Rightarrow> string option \<Rightarrow> string option \<Rightarrow> int \<Rightarrow> exn + db \<times> message_row" where
  "sql_insert_message d now i role content ord =
     (if ord > INT_MAX \<or> ord < INT_MIN then Inl NumericOutOfRange
      else (case role of None \<Rightarrow> Inl NotNullViolation | Some r \<Rightarrow>
      (case store_varchar 20 r of Inl e \<Rightarrow> Inl e | Inr r' \<Rightarrow>
      (case content of None \<Rightarrow> Inl NotNullViolation | Some c \<Rightarrow>
      if r' \<notin> set [''user'', ''ai'', ''system''] then Inl CheckViolation
      else if \<not> list_ex (\<lambda>c. c_id c = i) (conversations d) then Inl ForeignKeyViolation
      else
        let row = \<lparr>m_id = next_uuid d, m_conversation_id = i, m_role = r', m_content = c,
                   m_created_at = now, m_message_order = ord\<rparr>
        in Inr (d\<lparr>messages := messages d @ [row], next_uuid := Suc (next_uuid d)\<rparr>, row)))))"

text \<open>\<open>UPDATE conversations SET updated_at = NOW() WHERE id = $1\<close>\<close>

definition sql_touch_conversation :: "db \<Rightarrow> timestamp \<Rightarrow> uuid \<Rightarrow> db" where
  "sql_touch_conversation d now i =
     d\<lparr>conversations := map (\<lambda>c. if c_id c = i then c\<lparr>c_updated_at := now\<rparr> else c)
                             (conversations d)\<rparr>"

text \<open>
  \<open>UPDATE conversations SET title = CASE WHEN title = 'New Chat' THEN $1 ELSE title END,
  updated_at = NOW() WHERE id = $2\<close>. The handlers pass a preview of at most 53
  characters, which fits the column.
\<close>

definition sql_first_title :: "db \<Rightarrow> timestamp \<Rightarrow> uuid \<Rightarrow> string \<Rightarrow> db" where
  "sql_first_title d now i preview =
     d\<lparr>conversations :=
         map (\<lambda>c. if c_id c = i
                  then c\<lparr>c_title := (if c_title c = ''New Chat'' then preview else c_title c),
                         c_updated_at := now\<rparr>
                  else c)
             (conversations d)\<rparr>"

text \<open>
  The listing query of \<open>GET /api/conversations\<close>: the user's conversations with
  \<open>is_archived = false\<close>, each with \<open>COUNT(m.id)\<close> over the left join (the number of its
  messages), \<open>ORDER BY c.updated_at DESC\<close>.
\<close>

definition sql_list_conversations :: "db \<Rightarrow> uuid \<Rightarrow> (conversation_row \<times> nat) list" where
  "sql_list_conversations d uid =
     sort_key (\<lambda>r. - int (c_updated_at (fst r)))
       (map (\<lambda>c. (c, length (filter (\<lambda>m. m_conversation_id m = c_id c) (messages d))))
            (filter (\<lambda>c. c_user_id c = uid \<and> c_is_archived c = Some False) (conversations d)))"

text \<open>\<open>SELECT * FROM user_settings WHERE user_id = $1\<close>\<close>

definition sql_settings_of :: "db \<Rightarrow> uuid \<Rightarrow> settings_row list" where
  "sql_settings_of d uid = filter (\<lambda>s. s_user_id s = uid) (user_settings d)"

text \<open>
  \<open>INSERT INTO user_settings ... ON CONFLICT (user_id) DO UPDATE SET preferred_model = $2,
  use_builtin_key = $3, updated_at = NOW() RETURNING *\<close>
\<close>

definition sql_upsert_settings :: "db \<Rightarrow> timestamp \<Rightarrow> uuid \<Rightarrow> string \<Rightarrow> bool \<Rightarrow> exn + db \<times> settings_row" where
  "sql_upsert_settings d now uid model builtin =
     (case store_varchar 100 model of Inl e \<Rightarrow> Inl e | Inr model' \<Rightarrow>
     (case sql_settings_of d uid of
        [] \<Rightarrow>
          if \<not> list_ex (\<lambda>u. u_id u = uid) (users d) then Inl ForeignKeyViolation
          else
            let row = \<lparr>s_id = next_uuid d, s_user_id = uid, s_preferred_model = Some model',
                       s_use_builtin_key = Some builtin, s_created_at = now, s_updated_at = now\<rparr>
            in Inr (d\<lparr>user_settings := user_settings d @ [row], next_uuid := Suc (next_uuid d)\<rparr>, row)
      | old # _ \<Rightarrow>
          let row = old\<lparr>s_preferred_model := Some model', s_use_builtin_key := Some builtin,
                        s_updated_at := now\<rparr>
          in Inr (d\<lparr>user_settings := map (\<lambda>s. if s_user_id s = uid then row else s) (user_settings d)\<rparr>,
                  row)))"

section \<open>The HTTP API (server.js)\<close>

subsection \<open>Requests, responses, libraries\<close>

datatype json =
  JNull | JBool bool | JNum int | JStr string | JArr "json list" | JObj "(string \<times> json) list"

record response =
  r_status :: nat
  r_json :: json

definition reply :: "nat \<Rightarrow> json \<Rightarrow> response" where
  "reply st j = \<lparr>r_status = st, r_json = j\<rparr>"

definition err :: "string \<Rightarrow> json" where
  "err msg = JObj [(''error'', JStr msg)]"

text \<open>
  A request as the routes receive it, after \<open>express.json()\<close> has parsed the body. A
  text field of the body is a string or absent; \<open>message_order\<close> is there because a
  client may send it, although no handler of server.js reads it.
\<close>

record item =
  i_role :: "string option"
  i_content :: "string option"
  i_message_order :: "int option"

record body =
  b_name :: "string option"
  b_email :: "string option"
  b_password :: "string option"
  b_title :: "string option"
  b_role :: "string option"
  b_content :: "string option"
  b_message_order :: "int option"
  b_messages :: "item option list option"
  b_preferredModel :: "string option"
  b_useBuiltinKey :: "bool option"

definition no_body :: body where
  "no_body = \<lparr>b_name = None, b_email = None, b_password = None, b_title = None, b_role = None,
     b_content = None, b_message_order = None, b_messages = None, b_preferredModel = None,
     b_useBuiltinKey = None\<rparr>"

datatype route =
  Health | AuthSignup | AuthLogin | AuthVerify
  | ConversationsGet | ConversationsPost
  | ConversationGet param | ConversationPut param | ConversationDelete param
  | MessagesPost param | MessagesGet param | MessagesBulk param
  | SettingsGet | SettingsPut
  | Unmatched

record request =
  rq_route :: route
  rq_authorization :: "string option"
  rq_body :: body

text \<open>
  The payload that \<open>jwt.sign\<close> signs, \<open>{id, email}\<close>, and the decoded token that
  \<open>jwt.verify\<close> gives back and the middleware stores in \<open>req.user\<close>: \<open>id\<close>, \<open>email\<close>,
  and the \<open>iat\<close> and \<open>exp\<close> that signing with \<open>expiresIn\<close> adds.
\<close>

type_synonym payload = "uuid \<times> string"

type_synonym decoded = "uuid \<times> string \<times> timestamp \<times> timestamp"

text \<open>
  bcrypt, jsonwebtoken (with \<open>JWT_SECRET\<close> fixed) and the text of the database driver's
  error messages are not code of this repository: the handlers take them as parameters.
\<close>

record libs =
  bcrypt_hash :: "string \<Rightarrow> string"
  bcrypt_compare :: "string \<Rightarrow> string \<Rightarrow> bool"
  jwt_sign :: "payload \<Rightarrow> timestamp \<Rightarrow> string"
  jwt_verify :: "string \<Rightarrow> timestamp \<Rightarrow> decoded option"
  exn_message :: "exn \<Rightarrow> string"

definition failure :: "libs \<Rightarrow> string \<Rightarrow> exn \<Rightarrow> response" where
  "failure L prefix e = reply 500 (err (prefix @ exn_message L e))"

text \<open>JavaScript's \<open>!x\<close> on a string or \<open>undefined\<close>.\<close>

definition falsy :: "string option \<Rightarrow> bool" where
  "falsy x = (case x of None \<Rightarrow> True | Some s \<Rightarrow> s = [])"

fun str :: "string option \<Rightarrow> string" where
  "str None = []"
| "str (Some s) = s"

text \<open>\<open>s.split(c)\<close> for a one-character separator.\<close>

fun split_on :: "char \<Rightarrow> string \<Rightarrow> string list" where
  "split_on c [] = [[]]"
| "split_on c (x # xs) =
     (if x = c then [] # split_on c xs
      else (case split_on c xs of [] \<Rightarrow> [[x]] | y # ys \<Rightarrow> (x # y) # ys))"

subsection \<open>authenticateToken\<close>

text \<open>
  \<open>authHeader && authHeader.split(' ')[1]\<close>, with \<open>None\<close> for every value on which
  \<open>!token\<close> holds.
\<close>

definition bearer_token :: "string option \<Rightarrow> string option" where
  "bearer_token authHeader =
     (case authHeader of
        None \<Rightarrow> None
      | Some h \<Rightarrow>
          (case split_on CHR '' '' h of
             _ # t # _ \<Rightarrow> (if t = [] then None else Some t)
           | _ \<Rightarrow> None))"

definition authenticateToken :: "libs \<Rightarrow> timestamp \<Rightarrow> request \<Rightarrow> response + decoded" where
  "authenticateToken L now req =
     (case bearer_token (rq_authorization req) of
        None \<Rightarrow> Inl (reply 401 (err ''Access token required''))
      | Some token \<Rightarrow>
          (case jwt_verify L token now of
             None \<Rightarrow> Inl (reply 403 (err ''Invalid or expired token''))
           | Some user \<Rightarrow> Inr user))"

text \<open>
  A route registered as \<open>app.METHOD(path, authenticateToken, handler)\<close>: the handler runs
  only when the middleware calls \<open>next()\<close>.
\<close>

definition protected :: "libs \<Rightarrow> timestamp \<Rightarrow> request \<Rightarrow> db \<Rightarrow> (decoded \<Rightarrow> db \<times> response) \<Rightarrow> db \<times> response" where
  "protected L now req d handler =
     (case authenticateToken L now req of
        Inl r \<Rightarrow> (d, r)
      | Inr user \<Rightarrow> handler user)"

subsection \<open>Auth endpoints\<close>

definition user_json :: "user_row \<Rightarrow> bool \<Rightarrow> json" where
  "user_json u with_created =
     JObj ([(''id'', JNum (int (u_id u))), (''name'', JStr (u_name u)), (''email'', JStr (u_email u))]
           @ (if with_created then [(''createdAt'', JNum (int (u_created_at u)))] else []))"

definition signup :: "libs \<Rightarrow> timestamp \<Rightarrow> db \<Rightarrow> body \<Rightarrow> db \<times> response" where
  "signup L now d b =
     (if falsy (b_name b) \<or> falsy (b_email b) \<or> falsy (b_password b)
      then (d, reply 400 (err ''Name, email, and password are required''))
      else if length (str (b_password b)) < 6
      then (d, reply 400 (err ''Password must be at least 6 characters''))
      else if sql_users_by_email d (str (b_email b)) \<noteq> []
      then (d, reply 400 (err ''User with this email already exists''))
      else
        (case sql_insert_user d now (str (b_name b)) (str (b_email b))
                (bcrypt_hash L (str (b_password b))) of
           Inl e \<Rightarrow> (d, failure L ''Failed to create user: '' e)
         | Inr (d', user) \<Rightarrow>
             (d', reply 201 (JObj [(''success'', JBool True), (''user'', user_json user True),
                    (''token'', JStr (jwt_sign L (u_id user, u_email user) now))]))))"

definition login :: "libs \<Rightarrow> timestamp \<Rightarrow> db \<Rightarrow> body \<Rightarrow> db \<times> response" where
  "login L now d b =
     (if falsy (b_email b) \<or> falsy (b_password b)
      then (d, reply 400 (err ''Email and password are required''))
      else
        (case sql_active_users_by_email d (str (b_email b)) of
           [] \<Rightarrow> (d, reply 401 (err ''Invalid email or password''))
         | user # _ \<Rightarrow>
             if \<not> bcrypt_compare L (str (b_password b)) (u_password_hash user)
             then (d, reply 401 (err ''Invalid email or password''))
             else
               (sql_touch_login d now (u_id user),
                reply 200 (JObj [(''success'', JBool True), (''user'', user_json user False),
                    (''token'', JStr (jwt_sign L (u_id user, u_email user) now))]))))"

definition verify :: "db \<Rightarrow> decoded \<Rightarrow> db \<times> response" where
  "verify d user =
     (d, reply 200 (JObj [(''success'', JBool True),
           (''user'', JObj [(''id'', JNum (int (fst user))), (''email'', JStr (fst (snd user))),
                            (''iat'', JNum (int (fst (snd (snd user))))),
                            (''exp'', JNum (int (snd (snd (snd user)))))])]))"

subsection \<open>Conversation endpoints\<close>

definition summary_json :: "conversation_row \<times> nat \<Rightarrow> json" where
  "summary_json row =
     JObj [(''id'', JNum (int (c_id (fst row)))), (''title'', JStr (c_title (fst row))),
           (''createdAt'', JNum (int (c_created_at (fst row)))),
           (''updatedAt'', JNum (int (c_updated_at (fst row)))),
           (''messageCount'', JNum (int (snd row)))]"

definition get_conversations :: "libs \<Rightarrow> db \<Rightarrow> decoded \<Rightarrow> db \<times> response" where
  "get_conversations L d user =
     (d, reply 200 (JArr (map summary_json (sql_list_conversations d (fst user)))))"

definition create_conversation :: "libs \<Rightarrow> timestamp \<Rightarrow> db \<Rightarrow> decoded \<Rightarrow> body \<Rightarrow> db \<times> response" where
  "create_conversation L now d user b =
     (case sql_insert_conversation d now (fst user)
             (if falsy (b_title b) then ''New Chat'' else str (b_title b)) of
        Inl e \<Rightarrow> (d, failure L ''Failed to create conversation: '' e)
      | Inr (d', conversation) \<Rightarrow>
          (d', reply 201 (JObj [(''id'', JNum (int (c_id conversation))),
                 (''title'', JStr (c_title conversation)),
                 (''createdAt'', JNum (int (c_created_at conversation))),
                 (''updatedAt'', JNum (int (c_updated_at conversation)))])))"

definition get_conversation :: "libs \<Rightarrow> db \<Rightarrow> decoded \<Rightarrow> param \<Rightarrow> db \<times> response" where
  "get_conversation L d user p =
     (case p of
        None \<Rightarrow> (d, failure L ''Failed to fetch conversation: '' InvalidUuid)
      | Some i \<Rightarrow>
      (case sql_conv_check d i (fst user) of
        [] \<Rightarrow> (d, reply 404 (err ''Conversation not found''))
        | _ # _ \<Rightarrow>
          (case sql_conversation d i of
             [] \<Rightarrow> (d, failure L ''Failed to fetch conversation: '' TypeError)
           | conversation # _ \<Rightarrow>
               (d, reply 200 (JObj [(''id'', JNum (int (c_id conversation))),
                      (''title'', JStr (c_title conversation)),
                      (''createdAt'', JNum (int (c_created_at conversation))),
                      (''updatedAt'', JNum (int (c_updated_at conversation))),
                      (''messages'', JArr (map (\<lambda>msg.
                           JObj [(''role'', JStr (m_role msg)), (''content'', JStr (m_content msg)),
                                 (''createdAt'', JNum (int (m_created_at msg)))])
                         (sql_messages_of d i)))])))))"

definition update_conversation :: "libs \<Rightarrow> timestamp \<Rightarrow> db \<Rightarrow> decoded \<Rightarrow> param \<Rightarrow> body \<Rightarrow> db \<times> response" where
  "update_conversation L now d user p b =
     (if falsy (b_title b) then (d, reply 400 (err ''Title is required''))
      else
        (case p of
           None \<Rightarrow> (d, failure L ''Failed to update conversation: '' InvalidUuid)
         | Some i \<Rightarrow>
         (case sql_conv_check d i (fst user) of
           [] \<Rightarrow> (d, reply 404 (err ''Conversation not found''))
           | _ # _ \<Rightarrow>
             (case sql_set_title d now i (str (b_title b)) of
                Inl e \<Rightarrow> (d, failure L ''Failed to update conversation: '' e)
              | Inr (d', []) \<Rightarrow> (d', failure L ''Failed to update conversation: '' TypeError)
              | Inr (d', conversation # _) \<Rightarrow>
                  (d', reply 200 (JObj [(''id'', JNum (int (c_id conversation))),
                         (''title'', JStr (c_title conversation)),
                         (''updatedAt'', JNum (int (c_updated_at conversation)))]))))))"

definition delete_conversation :: "libs \<Rightarrow> db \<Rightarrow> decoded \<Rightarrow> param \<Rightarrow> db \<times> response" where
  "delete_conversation L d user p =
     (case p of
        None \<Rightarrow> (d, failure L ''Failed to delete conversation: '' InvalidUuid)
      | Some i \<Rightarrow>
      (case sql_conv_check d i (fst user) of
        [] \<Rightarrow> (d, reply 404 (err ''Conversation not found''))
        | _ # _ \<Rightarrow>
          (sql_delete_conversation d i, reply 200 (JObj [(''success'', JBool True)]))))"

subsection \<open>Message endpoints\<close>

text \<open>\<open>content.substring(0, 50) + (content.length > 50 ? '...' : '')\<close>\<close>

definition titlePreview :: "string \<Rightarrow> string" where
  "titlePreview content = take 50 content @ (if length content > 50 then ''...'' else [])"

definition message_json :: "message_row \<Rightarrow> bool \<Rightarrow> json" where
  "message_json m with_order =
     JObj ([(''id'', JNum (int (m_id m))), (''role'', JStr (m_role m)),
            (''content'', JStr (m_content m)), (''createdAt'', JNum (int (m_created_at m)))]
           @ (if with_order then [(''messageOrder'', JNum (m_message_order m))] else []))"

definition post_message :: "libs \<Rightarrow> timestamp \<Rightarrow> db \<Rightarrow> decoded \<Rightarrow> param \<Rightarrow> body \<Rightarrow> db \<times> response" where
  "post_message L now d user p b =
     (if falsy (b_role b) \<or> falsy (b_content b)
      then (d, reply 400 (err ''Role and content are required''))
      else if str (b_role b) \<notin> set [''user'', ''ai'', ''system'']
      then (d, reply 400 (err ''Role must be user, ai, or system''))
      else
        (case p of
           None \<Rightarrow> (d, failure L ''Failed to add message: '' InvalidUuid)
         | Some i \<Rightarrow>
         (case sql_conv_check d i (fst user) of
           [] \<Rightarrow> (d, reply 404 (err ''Conversation not found''))
           | _ # _ \<Rightarrow>
             (case sql_next_order d i of
                Inl e \<Rightarrow> (d, failure L ''Failed to add message: '' e)
              | Inr messageOrder \<Rightarrow>
                  (case sql_insert_message d now i (b_role b) (b_content b) messageOrder of
                     Inl e \<Rightarrow> (d, failure L ''Failed to add message: '' e)
                   | Inr (d1, message) \<Rightarrow>
                       let d2 = sql_touch_conversation d1 now i;
                           d3 = (if str (b_role b) = ''user'' \<and> messageOrder = 1
                                 then sql_first_title d2 now i
                                        (titlePreview (str (b_content b)))
                                 else d2)
                       in (d3, reply 201 (message_json message True)))))))"

definition get_messages :: "libs \<Rightarrow> db \<Rightarrow> decoded \<Rightarrow> param \<Rightarrow> db \<times> response" where
  "get_messages L d user p =
     (case p of
        None \<Rightarrow> (d, failure L ''Failed to fetch messages: '' InvalidUuid)
      | Some i \<Rightarrow>
      (case sql_conv_check d i (fst user) of
        [] \<Rightarrow> (d, reply 404 (err ''Conversation not found''))
        | _ # _ \<Rightarrow>
          (d, reply 200 (JArr (map (\<lambda>msg. message_json msg False)
                                 (sql_messages_of d i))))))"

text \<open>
  The loop of the bulk endpoint. Every \<open>INSERT\<close> is a statement of its own: when one
  throws, the rows inserted before it stay. An element that is \<open>null\<close> throws when its
  \<open>role\<close> is read.
\<close>

fun bulk_loop :: "timestamp \<Rightarrow> uuid \<Rightarrow> item option list \<Rightarrow> int \<Rightarrow> db \<Rightarrow> json list \<Rightarrow> db \<times> (exn + json list)" where
  "bulk_loop now i [] messageOrder d insertedMessages = (d, Inr insertedMessages)"
| "bulk_loop now i (None # rest) messageOrder d insertedMessages = (d, Inl TypeError)"
| "bulk_loop now i (Some msg # rest) messageOrder d insertedMessages =
     (case sql_insert_message d now i (i_role msg) (i_content msg) (messageOrder + 1) of
        Inl e \<Rightarrow> (d, Inl e)
      | Inr (d1, row) \<Rightarrow>
          bulk_loop now i rest (messageOrder + 1)
            (if i_role msg = Some ''user'' \<and> messageOrder + 1 = 1
             then sql_first_title d1 now i (titlePreview (str (i_content msg)))
             else d1)
            (insertedMessages @ [message_json row False]))"

definition bulk_messages :: "libs \<Rightarrow> timestamp \<Rightarrow> db \<Rightarrow> decoded \<Rightarrow> param \<Rightarrow> body \<Rightarrow> db \<times> response" where
  "bulk_messages L now d user p b =
     (case b_messages b of
        None \<Rightarrow> (d, reply 400 (err ''Messages array is required''))
      | Some [] \<Rightarrow> (d, reply 400 (err ''Messages array is required''))
      | Some (m # ms) \<Rightarrow>
          (case p of
             None \<Rightarrow> (d, failure L ''Failed to add messages: '' InvalidUuid)
           | Some i \<Rightarrow>
           (case sql_conv_check d i (fst user) of
             [] \<Rightarrow> (d, reply 404 (err ''Conversation not found''))
             | _ # _ \<Rightarrow>
               (case bulk_loop now i (m # ms) (sql_max_order d i) d [] of
                  (d', Inl e) \<Rightarrow> (d', failure L ''Failed to add messages: '' e)
                | (d', Inr insertedMessages) \<Rightarrow>
                    (sql_touch_conversation d' now i,
                     reply 201 (JObj [(''success'', JBool True),
                                      (''messages'', JArr insertedMessages)]))))))"

subsection \<open>Settings, health, routing\<close>

definition opt_json :: "('a \<Rightarrow> json) \<Rightarrow> 'a option \<Rightarrow> json" where
  "opt_json f x = (case x of None \<Rightarrow> JNull | Some v \<Rightarrow> f v)"

definition settings_json :: "settings_row \<Rightarrow> json" where
  "settings_json settings =
     JObj [(''preferredModel'', opt_json JStr (s_preferred_model settings)),
           (''useBuiltinKey'', opt_json JBool (s_use_builtin_key settings))]"

definition get_settings :: "libs \<Rightarrow> db \<Rightarrow> decoded \<Rightarrow> db \<times> response" where
  "get_settings L d user =
     (case sql_settings_of d (fst user) of
        [] \<Rightarrow> (d, reply 200 (JObj [(''preferredModel'', JStr ''gemini-pro''),
                                    (''useBuiltinKey'', JBool True)]))
      | settings # _ \<Rightarrow> (d, reply 200 (settings_json settings)))"

definition put_settings :: "libs \<Rightarrow> timestamp \<Rightarrow> db \<Rightarrow> decoded \<Rightarrow> body \<Rightarrow> db \<times> response" where
  "put_settings L now d user b =
     (case sql_upsert_settings d now (fst user)
             (if falsy (b_preferredModel b) then ''gemini-pro'' else str (b_preferredModel b))
             (case b_useBuiltinKey b of None \<Rightarrow> True | Some v \<Rightarrow> v) of
        Inl e \<Rightarrow> (d, failure L ''Failed to update settings: '' e)
      | Inr (d', settings) \<Rightarrow> (d', reply 200 (settings_json settings)))"

definition health :: "timestamp \<Rightarrow> db \<Rightarrow> db \<times> response" where
  "health now d =
     (d, reply 200 (JObj [(''status'', JStr ''ok''), (''database'', JStr ''connected''),
                          (''timestamp'', JNum (int now))]))"

text \<open>
  The application: the routes in the order they are registered, the 404 handler last.
  \<open>handle\<close> serves one request to the end before the next one starts.
\<close>

definition handle :: "libs \<Rightarrow> timestamp \<Rightarrow> db \<Rightarrow> request \<Rightarrow> db \<times> response" where
  "handle L now d req =
     (case rq_route req of
        Health \<Rightarrow> health now d
      | AuthSignup \<Rightarrow> signup L now d (rq_body req)
      | AuthLogin \<Rightarrow> login L now d (rq_body req)
      | AuthVerify \<Rightarrow> protected L now req d (\<lambda>user. verify d user)
      | ConversationsGet \<Rightarrow> protected L now req d (\<lambda>user. get_conversations L d user)
      | ConversationsPost \<Rightarrow> protected L now req d (\<lambda>user. create_conversation L now d user (rq_body req))
      | ConversationGet p \<Rightarrow> protected L now req d (\<lambda>user. get_conversation L d user p)
      | ConversationPut p \<Rightarrow> protected L now req d (\<lambda>user. update_conversation L now d user p (rq_body req))
      | ConversationDelete p \<Rightarrow> protected L now req d (\<lambda>user. delete_conversation L d user p)
      | MessagesPost p \<Rightarrow> protected L now req d (\<lambda>user. post_message L now d user p (rq_body req))
      | MessagesGet p \<Rightarrow> protected L now req d (\<lambda>user. get_messages L d user p)
      | MessagesBulk p \<Rightarrow> protected L now req d (\<lambda>user. bulk_messages L now d user p (rq_body req))
      | SettingsGet \<Rightarrow> protected L now req d (\<lambda>user. get_settings L d user)
      | SettingsPut \<Rightarrow> protected L now req d (\<lambda>user. put_settings L now d user (rq_body req))
      | Unmatched \<Rightarrow> (d, reply 404 (err ''Endpoint not found'')))"

text \<open>The routes registered with \<open>authenticateToken\<close>.\<close>

fun is_protected :: "route \<Rightarrow> bool" where
  "is_protected Health = False"
| "is_protected AuthSignup = False"
| "is_protected AuthLogin = False"
| "is_protected Unmatched = False"
| "is_protected _ = True"

text \<open>Requests served one after the other, each at its own time.\<close>

fun serve :: "libs \<Rightarrow> db \<Rightarrow> (timestamp \<times> request) list \<Rightarrow> db" where
  "serve L d [] = d"
| "serve L d ((now, req) # rest) = serve L (fst (handle L now d req)) rest"

text \<open>Stand-ins for the libraries, for evaluating the handlers on concrete requests.\<close>

definition toy_libs :: libs where
  "toy_libs =
     \<lparr>bcrypt_hash = (\<lambda>pw. ''$2b$10$'' @ rev pw),
      bcrypt_compare = (\<lambda>pw h. h = ''$2b$10$'' @ rev pw),
      jwt_sign = (\<lambda>pl now. ''jwt:'' @ snd pl),
      jwt_verify = (\<lambda>tok now. if tok = ''jwt:ann@example.org''
                               then Some (1, ''ann@example.org'', 0, 604800) else None),
      exn_message = (\<lambda>e. ''database error'')\<rparr>"

definition ann_body :: body where
  "ann_body = no_body\<lparr>b_name := Some ''Ann'', b_email := Some ''ann@example.org'',
                        b_password := Some ''secret1''\<rparr>"

definition ann_token :: "string option" where
  "ann_token = Some ''Bearer jwt:ann@example.org''"

text \<open>
  A small database: Ann (1) and Bob (2); Ann's conversations 3 (two messages) and 4
  (archived), Bob's conversation 5 (one message).
\<close>

definition demo_db :: db where
  "demo_db =
     \<lparr>users =
        [\<lparr>u_id = 1, u_email = ''ann@example.org'', u_password_hash = ''$2b$10$1terces'',
          u_name = ''Ann'', u_created_at = 1, u_updated_at = 1, u_last_login = None,
          u_is_active = Some True\<rparr>,
         \<lparr>u_id = 2, u_email = ''bob@example.org'', u_password_hash = ''$2b$10$2terces'',
          u_name = ''Bob'', u_created_at = 2, u_updated_at = 2, u_last_login = None,
          u_is_active = Some False\<rparr>],
      conversations =
        [\<lparr>c_id = 3, c_user_id = 1, c_title = ''Hello'', c_created_at = 3, c_updated_at = 9,
          c_is_archived = Some False\<rparr>,
         \<lparr>c_id = 4, c_user_id = 1, c_title = ''Old'', c_created_at = 4, c_updated_at = 4,
          c_is_archived = Some True\<rparr>,
         \<lparr>c_id = 5, c_user_id = 2, c_title = ''New Chat'', c_created_at = 5, c_updated_at = 8,
          c_is_archived = Some False\<rparr>],
      messages =
        [\<lparr>m_id = 6, m_conversation_id = 3, m_role = ''user'', m_content = ''Hello'',
          m_created_at = 6, m_message_order = 1\<rparr>,
         \<lparr>m_id = 7, m_conversation_id = 5, m_role = ''system'', m_content = ''Be kind'',
          m_created_at = 8, m_message_order = 1\<rparr>,
         \<lparr>m_id = 8, m_conversation_id = 3, m_role = ''ai'', m_content = ''Hi Ann'',
          m_created_at = 9, m_message_order = 2\<rparr>],
      user_settings = [],
      next_uuid = 9\<rparr>"

definition ann_request :: "route \<Rightarrow> body \<Rightarrow> request" where
  "ann_request r b = \<lparr>rq_route = r, rq_authorization = ann_token, rq_body = b\<rparr>"

subsection \<open>The message_order invariant\<close>

text \<open>The sequence 1, 2, ..., n.\<close>

definition gapless :: "int list \<Rightarrow> bool" where
  "gapless xs = (xs = map int [1..<Suc (length xs)])"

text \<open>
  In every conversation that has messages, the \<open>message_order\<close> values are, in storage
  order, 1, 2, 3, ... (a conversation without messages has the empty sequence).
\<close>

definition orders_gapless :: "db \<Rightarrow> bool" where
  "orders_gapless d =
     list_all (\<lambda>i. gapless (orders_of d i)) (remdups (map m_conversation_id (messages d)))"

text \<open>The body with every \<open>message_order\<close> a client may have supplied removed.\<close>

definition strip_orders :: "body \<Rightarrow> body" where
  "strip_orders b =
     b\<lparr>b_message_order := None,
       b_messages := map_option (map (map_option (\<lambda>m. m\<lparr>i_message_order := None\<rparr>))) (b_messages b)\<rparr>"

subsection \<open>The message handler, statement by statement\<close>

text \<open>
  The handler of \<open>POST /api/conversations/:id/messages\<close> is an \<open>async\<close> function: it
  runs up to its first \<open>await pool.query\<close>, and each later statement runs when the
  previous one has answered. There is no transaction around them, so between two
  statements of one request the statements of another request can run. A task is one
  request in progress; its program counter says which statement is next and holds the
  local variables.
\<close>

datatype pm_pc =
  PM_ConvCheck
  | PM_NextOrder uuid
  | PM_Insert uuid int
  | PM_Touch uuid int message_row
  | PM_FirstTitle uuid message_row
  | PM_Done response

record pm_task =
  pt_now :: timestamp
  pt_user :: decoded
  pt_param :: param
  pt_body :: body
  pt_pc :: pm_pc

text \<open>The synchronous prefix: the middleware and the two validation guards.\<close>

definition pm_accept :: "libs \<Rightarrow> timestamp \<Rightarrow> param \<Rightarrow> request \<Rightarrow> pm_task" where
  "pm_accept L now p req =
     (case authenticateToken L now req of
        Inl r \<Rightarrow> \<lparr>pt_now = now, pt_user = (0, [], 0, 0), pt_param = p, pt_body = rq_body req, pt_pc = PM_Done r\<rparr>
      | Inr user \<Rightarrow>
          \<lparr>pt_now = now, pt_user = user, pt_param = p, pt_body = rq_body req,
           pt_pc = (if falsy (b_role (rq_body req)) \<or> falsy (b_content (rq_body req))
                    then PM_Done (reply 400 (err ''Role and content are required''))
                    else if str (b_role (rq_body req)) \<notin> set [''user'', ''ai'', ''system'']
                    then PM_Done (reply 400 (err ''Role must be user, ai, or system''))
                    else PM_ConvCheck)\<rparr>)"

text \<open>One statement of one task.\<close>

definition pm_step :: "libs \<Rightarrow> db \<Rightarrow> pm_task \<Rightarrow> db \<times> pm_task" where
  "pm_step L d t =
     (case pt_pc t of
        PM_ConvCheck \<Rightarrow>
          (case pt_param t of
             None \<Rightarrow> (d, t\<lparr>pt_pc := PM_Done (failure L ''Failed to add message: '' InvalidUuid)\<rparr>)
           | Some i \<Rightarrow>
               (case sql_conv_check d i (fst (pt_user t)) of
                  [] \<Rightarrow> (d, t\<lparr>pt_pc := PM_Done (reply 404 (err ''Conversation not found''))\<rparr>)
                | _ # _ \<Rightarrow> (d, t\<lparr>pt_pc := PM_NextOrder i\<rparr>)))
      | PM_NextOrder i \<Rightarrow>
          (case sql_next_order d i of
             Inl e \<Rightarrow> (d, t\<lparr>pt_pc := PM_Done (failure L ''Failed to add message: '' e)\<rparr>)
           | Inr messageOrder \<Rightarrow> (d, t\<lparr>pt_pc := PM_Insert i messageOrder\<rparr>))
      | PM_Insert i messageOrder \<Rightarrow>
          (case sql_insert_message d (pt_now t) i (b_role (pt_body t)) (b_content (pt_body t))
                  messageOrder of
             Inl e \<Rightarrow> (d, t\<lparr>pt_pc := PM_Done (failure L ''Failed to add message: '' e)\<rparr>)
           | Inr (d1, message) \<Rightarrow> (d1, t\<lparr>pt_pc := PM_Touch i messageOrder message\<rparr>))
      | PM_Touch i messageOrder message \<Rightarrow>
          (sql_touch_conversation d (pt_now t) i,
           t\<lparr>pt_pc := (if str (b_role (pt_body t)) = ''user'' \<and> messageOrder = 1
                        then PM_FirstTitle i message
                        else PM_Done (reply 201 (message_json message True)))\<rparr>)
      | PM_FirstTitle i message \<Rightarrow>
          (sql_first_title d (pt_now t) i (titlePreview (str (b_content (pt_body t)))),
           t\<lparr>pt_pc := PM_Done (reply 201 (message_json message True))\<rparr>)
      | PM_Done r \<Rightarrow> (d, t))"

text \<open>
  A schedule names, step by step, the task whose next statement runs. Running the five
  statements of a single task in a row is the handler served alone.
\<close>

fun interleave :: "libs \<Rightarrow> db \<times> pm_task list \<Rightarrow> nat list \<Rightarrow> db \<times> pm_task list" where
  "interleave L st [] = st"
| "interleave L (d, ts) (k # ks) =
     (if k < length ts
      then (case pm_step L d (ts ! k) of (d', t') \<Rightarrow> interleave L (d', ts[k := t']) ks)
      else interleave L (d, ts) ks)"

definition hello_body :: body where
  "hello_body = no_body\<lparr>b_role := Some ''user'', b_content := Some ''Are you there?'',
                          b_message_order := Some 42\<rparr>"

definition bulk_body :: body where
  "bulk_body =
     no_body\<lparr>b_messages :=
       Some [Some \<lparr>i_role = Some ''user'', i_content = Some ''One'', i_message_order = Some 7\<rparr>,
             Some \<lparr>i_role = Some ''ai'', i_content = Some ''Two'', i_message_order = None\<rparr>]\<rparr>"

section \<open>The browser client (script.js)\<close>

subsection \<open>JavaScript strings\<close>

text \<open>
  Keys, model names, URLs and error messages are written as \<open>string\<close>. The text that the
  user types and the model answers is trimmed by the code, and what \<open>trim\<close> removes depends
  on code units beyond Latin-1; this text is a list of UTF-16 code units, as a JavaScript
  string is, each code unit an integer from 0 to 65535. \<open>utf16\<close> gives the code units
  of a literal.
\<close>

type_synonym jstring = "int list"

definition utf16 :: "string \<Rightarrow> jstring" where
  "utf16 s = map of_char s"

definition startsWith :: "string \<Rightarrow> string \<Rightarrow> bool" where
  "startsWith s t = (take (length t) s = t)"

text \<open>\<open>s.includes(t)\<close>\<close>

fun str_includes :: "string \<Rightarrow> string \<Rightarrow> bool" where
  "str_includes [] t = (t = [])"
| "str_includes (x # xs) t = (startsWith (x # xs) t \<or> str_includes xs t)"

text \<open>
  The code units that \<open>String.prototype.trim\<close> removes, ECMAScript's WhiteSpace and
  LineTerminator: TAB, LF, VT, FF, CR, SPACE, NO-BREAK SPACE (U+00A0), U+1680, U+2000 to
  U+200A, U+2028, U+2029, U+202F, U+205F, U+3000 and U+FEFF.
\<close>

definition is_space :: "int \<Rightarrow> bool" where
  "is_space c =
     (c \<in> set [0x09, 0x0A, 0x0B, 0x0C, 0x0D, 0x20, 0xA0, 0x1680, 0x2028, 0x2029, 0x202F, 0x205F,
                0x3000, 0xFEFF]
      \<or> (0x2000 \<le> c \<and> c \<le> 0x200A))"

definition trim :: "jstring \<Rightarrow> jstring" where
  "trim s = rev (dropWhile is_space (rev (dropWhile is_space s)))"

text \<open>\<open>xs.join(sep)\<close>\<close>

fun join :: "jstring \<Rightarrow> jstring list \<Rightarrow> jstring" where
  "join sep [] = []"
| "join sep [x] = x"
| "join sep (x # y # ys) = x @ sep @ join sep (y # ys)"

definition nl :: jstring where
  "nl = [0x0A]"

text \<open>A status code in a template string.\<close>

fun showNat :: "nat \<Rightarrow> string" where
  "showNat n =
     (if n < 10 then [''0123456789'' ! n]
      else showNat (n div 10) @ [''0123456789'' ! (n mod 10)])"

declare showNat.simps [simp del]

subsection \<open>The remote endpoint as the client sees it\<close>

text \<open>A model configuration \<open>{model, apiVersion}\<close>.\<close>

type_synonym config = "string \<times> string"

text \<open>
  What one \<open>fetch\<close> of \<open>:generateContent\<close> and the reading of its body can come to.
  For a response with \<open>response.ok\<close>: the text of the first candidate; or \<open>response.json()\<close>
  rejects; or the candidate structure is missing; or the first part has no \<open>text\<close>
  (reading \<open>.text.trim()\<close> throws). For another response: its status, the JSON error
  body (\<open>errorData.error?.message || ''\<close> and \<open>JSON.stringify(errorData)\<close>) or a body
  that is not JSON, and what \<open>response.text()\<close> gives when called after
  \<open>response.json()\<close>: \<open>Inl\<close> the message of the \<open>TypeError\<close> thrown because the body is
  already read (what the Fetch standard prescribes), \<open>Inr\<close> a text.
\<close>

datatype ok_body = OkText jstring | OkJsonError string | OkNoCandidates | OkNoText string

datatype err_body = ErrJson string string | ErrNotJson

datatype outcome =
  NetworkError string
  | AbortError
  | Ok ok_body
  | NotOk nat err_body "string + string"

text \<open>What the \<open>ListModels\<close> call comes to: no usable answer, or \<open>data.models\<close> as pairs of
  \<open>name\<close> and \<open>supportedGenerationMethods\<close>.\<close>

datatype lm_outcome = LM_Fail | LM_Models "(string \<times> string list) list"

datatype http_request =
  ListModels string
  | GenerateContent string string string jstring

definition modelConfigs :: "config list" where
  "modelConfigs =
     [(''gemini-1.5-flash'', ''v1beta''), (''gemini-1.5-pro'', ''v1beta''),
      (''gemini-2.0-flash-exp'', ''v1beta''),
      (''gemini-1.5-flash-002'', ''v1beta''), (''gemini-1.5-pro-002'', ''v1beta''),
      (''gemini-1.5-flash-001'', ''v1beta''), (''gemini-1.5-pro-001'', ''v1beta''),
      (''gemini-1.5-flash-latest'', ''v1beta''), (''gemini-1.5-pro-latest'', ''v1beta'')]"

subsection \<open>One iteration of the loop of tryGenerateWithKey\<close>

datatype attempt = Return jstring | Throw string | Continue "string option"

text \<open>
  The outer \<open>catch (fetchError)\<close>: a cancelled request is rethrown; otherwise the error
  is kept as \<open>lastError\<close> unless a more informative one is already there.
\<close>

definition catch_fetchError :: "bool \<Rightarrow> string option \<Rightarrow> string \<Rightarrow> attempt" where
  "catch_fetchError aborted lastError message =
     (if aborted then Throw ''Request cancelled by user''
      else Continue
        (case lastError of
           None \<Rightarrow> Some message
         | Some m \<Rightarrow> if str_includes m ''All API model configurations failed'' then Some message
                     else Some m))"

text \<open>
  The inner \<open>catch (e)\<close> of the error branch: it reads \<open>response.text()\<close>; when that throws,
  the outer catch takes over.
\<close>

definition catch_e :: "bool \<Rightarrow> string option \<Rightarrow> nat \<Rightarrow> string + string \<Rightarrow> attempt" where
  "catch_e aborted lastError status retext =
     (case retext of
        Inl typeError \<Rightarrow> catch_fetchError aborted lastError typeError
      | Inr errorText \<Rightarrow>
          Continue (Some (''AI API error: '' @ showNat status @ '' - '' @ take 200 errorText)))"

text \<open>
  The body of the loop for one configuration, given what its fetch came to and whether
  the signal is aborted by then. In the error branch the \<open>throw\<close> for 401 and 403 stands
  inside the \<open>try\<close> whose \<open>catch (e)\<close> follows: it is caught there.
\<close>

definition attempt :: "config \<Rightarrow> bool \<Rightarrow> string option \<Rightarrow> outcome \<Rightarrow> attempt" where
  "attempt cfg aborted lastError out =
     (case out of
        AbortError \<Rightarrow> Throw ''Request cancelled by user''
      | NetworkError message \<Rightarrow> catch_fetchError aborted lastError message
      | Ok (OkText text) \<Rightarrow> Return (trim text)
      | Ok (OkJsonError message) \<Rightarrow> catch_fetchError aborted lastError message
      | Ok OkNoCandidates \<Rightarrow> catch_fetchError aborted lastError ''Invalid API response structure''
      | Ok (OkNoText message) \<Rightarrow> catch_fetchError aborted lastError message
      | NotOk status ErrNotJson retext \<Rightarrow> catch_e aborted lastError status retext
      | NotOk status (ErrJson errorMessage errorText) retext \<Rightarrow>
          if status = 404 \<and> str_includes errorMessage ''not found''
          then Continue (Some (''Model '' @ fst cfg @ '' not found for API version '' @ snd cfg))
          else if status = 401 \<or> status = 403
          then catch_e aborted lastError status retext
          else Continue (Some (''AI API error: '' @ showNat status @ '' - ''
                               @ (if errorMessage \<noteq> [] then errorMessage else errorText))))"

text \<open>After the loop: the error that tryGenerateWithKey throws.\<close>

definition exhausted :: "string option \<Rightarrow> string" where
  "exhausted lastError =
     (let errorMsg = (case lastError of None \<Rightarrow> ''Unknown error'' | Some m \<Rightarrow> m)
      in if str_includes errorMsg ''404'' \<or> str_includes errorMsg ''not found''
         then ''All API model configurations failed - None of the tried models are available for this API key. Please check your API key has access to Gemini models, or try a different API key.''
         else (case lastError of
                 Some m \<Rightarrow> m
               | None \<Rightarrow> ''All API model configurations failed. Please check your API key and internet connection.''))"

text \<open>
  The loop run to its end against an endpoint that answers each configuration, with no
  cancellation on the way: the result, and the configurations requested, in order.
\<close>

fun tryModelConfigs :: "(config \<Rightarrow> outcome) \<Rightarrow> config list \<Rightarrow> string option \<Rightarrow> attempt \<times> config list" where
  "tryModelConfigs endpoint [] lastError = (Throw (exhausted lastError), [])"
| "tryModelConfigs endpoint (cfg # rest) lastError =
     (case attempt cfg False lastError (endpoint cfg) of
        Continue lastError' \<Rightarrow>
          (case tryModelConfigs endpoint rest lastError' of (r, tried) \<Rightarrow> (r, cfg # tried))
      | r \<Rightarrow> (r, [cfg]))"

subsection \<open>Client state\<close>

text \<open>
  An entry of the key list; the fields the generation path never reads (\<open>id\<close>,
  \<open>addedAt\<close>, \<open>status\<close>, \<open>preconfigured\<close>) are left out.
\<close>

record key_obj =
  k_key :: string
  k_active :: bool
  k_embedded :: bool

datatype wait = AwaitListModels | AwaitGenerate

text \<open>
  Where generateAIResponse stands with its keys: on the key it started with, inside the
  loop over the other stored keys (those still to come), or on the built-in key.
\<close>

datatype phase = Primary | Alternatives "string list" | Builtin

text \<open>
  A call of processBatchedMessages suspended in \<open>await generateAIResponse(...)\<close>, which is
  itself suspended in tryGenerateWithKey at \<open>await checkAvailableModels(apiKey)\<close> or at
  \<open>await fetch(apiUrl, ...)\<close>. The record holds the local variables of the three frames:
  \<open>j_apiKey\<close> and \<open>j_error\<close> of generateAIResponse, the rest of tryGenerateWithKey.
  \<open>j_configs\<close> is the part of \<open>modelConfigs\<close> not yet tried, the configuration being
  fetched first.
\<close>

record job =
  j_combinedMessage :: jstring
  j_originalMessages :: "jstring list"
  j_apiKey :: string
  j_error :: string
  j_phase :: phase
  j_key :: string
  j_prompt :: jstring
  j_wait :: wait
  j_configs :: "config list"
  j_lastError :: "string option"
  j_signal :: nat

datatype error_category =
  AuthIssue | AccessDenied | TooManyRequests | BadRequest | ServiceUnavailable
  | ConnectionFailed | NetworkIssue | ServiceError | ConnectionError

text \<open>What appendUser and appendAI put into the message area.\<close>

datatype ui_entry = UserMsg jstring | AIMsg jstring | AIError error_category

text \<open>
  The globals of script.js that the batching and generation code reads or writes; the
  parts of the browser it uses (clock, input field, message area, the timers whose
  callback is processBatchedMessages with their due times, the abort controllers whose
  signal is aborted, \<open>window\<close> flags, localStorage); the suspended calls; and two logs
  kept for observation: every call of generateAIResponse and every HTTP request issued.
  The 100 ms timer of sendMessage that blurs the input field touches none of this.
\<close>

record client =
  conversationHistory :: "(string \<times> jstring) list"
  pendingMessages :: "jstring list"
  batchTimeout :: "nat option"
  isGeneratingResponse :: bool
  abortController :: "nat option"
  cachedApiKeys :: "key_obj list option"
  apiKeysCacheTime :: nat
  systemPrompt :: jstring
  clock :: nat
  input_value :: jstring
  dom_messages :: "ui_entry list"
  timers :: "(nat \<times> nat) list"
  next_timer :: nat
  aborted_signals :: "nat list"
  next_controller :: nat
  models_checked :: "string list"
  ls_api_keys :: "key_obj list"
  ls_gemini_api_key :: "string option"
  ls_use_builtin_key :: "string option"
  jobs :: "job list"
  gen_calls :: "(jstring \<times> jstring list) list"
  http_log :: "http_request list"

definition BATCH_DELAY :: nat where
  "BATCH_DELAY = 500"

definition API_KEYS_CACHE_DURATION :: nat where
  "API_KEYS_CACHE_DURATION = 5000"

text \<open>
  The key material of the source is replaced by placeholders of the same shape: each
  starts with \<open>AIza\<close>, they differ pairwise in their first 10 characters, and the
  built-in key is the first embedded key.
\<close>

definition DEFAULT_BUILTIN_API_KEY :: string where
  "DEFAULT_BUILTIN_API_KEY = ''AIzaSy1-embedded-key''"

definition PRE_CONFIGURED_API_KEYS :: "string list" where
  "PRE_CONFIGURED_API_KEYS =
     [''AIzaSy1-embedded-key'', ''AIzaSy2-embedded-key'', ''AIzaSy3-embedded-key'',
      ''AIzaSy4-embedded-key'', ''AIzaSy5-embedded-key'']"

text \<open>A freshly loaded page with empty localStorage.\<close>

definition fresh_client :: "jstring \<Rightarrow> client" where
  "fresh_client sp =
     \<lparr>conversationHistory = [], pendingMessages = [], batchTimeout = None,
      isGeneratingResponse = False, abortController = None, cachedApiKeys = None,
      apiKeysCacheTime = 0, systemPrompt = sp, clock = 0, input_value = [],
      dom_messages = [], timers = [], next_timer = 1, aborted_signals = [],
      next_controller = 1, models_checked = [], ls_api_keys = [], ls_gemini_api_key = None,
      ls_use_builtin_key = None, jobs = [], gen_calls = [], http_log = []\<rparr>"

subsection \<open>API keys\<close>

text \<open>The second \<open>forEach\<close> of getUserApiKeys: stored keys that are not embedded and not yet listed.\<close>

fun add_stored :: "key_obj list \<Rightarrow> key_obj list \<Rightarrow> key_obj list" where
  "add_stored keys [] = keys"
| "add_stored keys (storedKey # rest) =
     add_stored (if \<not> k_embedded storedKey \<and> k_key storedKey \<notin> set (map k_key keys)
                 then keys @ [storedKey] else keys) rest"

text \<open>The first \<open>forEach\<close>: one entry per valid embedded key, at its index.\<close>

fun embedded_entries :: "key_obj list \<Rightarrow> nat \<Rightarrow> string list \<Rightarrow> key_obj list" where
  "embedded_entries storedKeys index [] = []"
| "embedded_entries storedKeys index (key # rest) =
     (case find (\<lambda>k. k_key k = key) storedKeys of
        None \<Rightarrow> [\<lparr>k_key = key, k_active = (index = 0), k_embedded = True\<rparr>]
      | Some existing \<Rightarrow> [existing\<lparr>k_embedded := True\<rparr>])
     @ embedded_entries storedKeys (Suc index) rest"

definition ensure_active :: "key_obj list \<Rightarrow> key_obj list" where
  "ensure_active keys =
     (if \<not> list_ex k_active keys
      then (case keys of [] \<Rightarrow> [] | k # ks \<Rightarrow> k\<lparr>k_active := True\<rparr> # map (\<lambda>x. x\<lparr>k_active := False\<rparr>) ks)
      else keys)"

definition saveUserApiKeys :: "key_obj list \<Rightarrow> client \<Rightarrow> client" where
  "saveUserApiKeys keys s = s\<lparr>ls_api_keys := keys, cachedApiKeys := Some keys, apiKeysCacheTime := clock s\<rparr>"

definition getUserApiKeys :: "client \<Rightarrow> key_obj list \<times> client" where
  "getUserApiKeys s =
     (case (if clock s - apiKeysCacheTime s < API_KEYS_CACHE_DURATION then cachedApiKeys s else None) of
        Some cached \<Rightarrow> (cached, s)
      | None \<Rightarrow>
          let validEmbeddedKeys = filter (\<lambda>key. key \<noteq> [] \<and> startsWith key ''AIza'') PRE_CONFIGURED_API_KEYS;
              keys = (if validEmbeddedKeys \<noteq> []
                      then ensure_active
                             (add_stored (embedded_entries (ls_api_keys s) 0 validEmbeddedKeys)
                                (ls_api_keys s))
                      else []);
              s1 = (if keys \<noteq> [] then saveUserApiKeys keys s else s);
              keys' = (if keys = [] then ls_api_keys s1 else keys)
          in (keys', s1\<lparr>cachedApiKeys := Some keys', apiKeysCacheTime := clock s1\<rparr>))"

definition getActiveApiKey :: "client \<Rightarrow> string option \<times> client" where
  "getActiveApiKey s =
     (case getUserApiKeys s of
        (keys, s1) \<Rightarrow>
          (case (case find k_active keys of Some k \<Rightarrow> Some k
                 | None \<Rightarrow> (if keys = [] then None else Some (last keys))) of
             Some activeKey \<Rightarrow> (Some (k_key activeKey), s1)
           | None \<Rightarrow>
               (case ls_gemini_api_key s1 of
                  Some legacyKey \<Rightarrow>
                    if legacyKey \<noteq> [] then (Some legacyKey, s1)
                    else if DEFAULT_BUILTIN_API_KEY \<noteq> [] \<and> ls_use_builtin_key s1 \<noteq> Some ''false''
                    then (Some DEFAULT_BUILTIN_API_KEY,
                          if ls_use_builtin_key s1 = None then s1\<lparr>ls_use_builtin_key := Some ''true''\<rparr> else s1)
                    else (None, s1)
                | None \<Rightarrow>
                    if DEFAULT_BUILTIN_API_KEY \<noteq> [] \<and> ls_use_builtin_key s1 \<noteq> Some ''false''
                    then (Some DEFAULT_BUILTIN_API_KEY,
                          if ls_use_builtin_key s1 = None then s1\<lparr>ls_use_builtin_key := Some ''true''\<rparr> else s1)
                    else (None, s1))))"

subsection \<open>tryGenerateWithKey and generateAIResponse, from one await to the next\<close>

text \<open>What a stretch of synchronous code ends in.\<close>

datatype progress =
  Suspended job client
  | Resolved jstring client
  | Rejected string client

text \<open>\<open>conversationHistory.slice(-10).map(...).join('\n')\<close> and the prompt built around it.\<close>

definition build_prompt :: "client \<Rightarrow> jstring \<Rightarrow> jstring" where
  "build_prompt s combinedMessage =
     systemPrompt s @ nl @ nl @ utf16 ''Conversation history:'' @ nl
     @ join nl (map (\<lambda>m. if fst m = ''user'' then utf16 ''User: '' @ snd m
                          else utf16 ''Assistant: '' @ snd m)
                   (drop (length (conversationHistory s) - 10) (conversationHistory s)))
     @ nl @ nl @ utf16 ''User: '' @ combinedMessage @ nl @ utf16 ''Assistant:''"

text \<open>
  The head of the \<open>for\<close> loop: with no configuration left the function throws its final
  error; with the signal aborted it throws the cancellation; otherwise it issues the
  fetch for the next configuration and waits.
\<close>

definition loop_head :: "job \<Rightarrow> client \<Rightarrow> (string \<times> client) + (job \<times> client)" where
  "loop_head j s =
     (case j_configs j of
        [] \<Rightarrow> Inl (exhausted (j_lastError j), s)
      | cfg # _ \<Rightarrow>
          if j_signal j \<in> set (aborted_signals s) then Inl (''Request cancelled by user'', s)
          else Inr (j\<lparr>j_wait := AwaitGenerate\<rparr>,
                    s\<lparr>http_log := http_log s @ [GenerateContent (snd cfg) (fst cfg) (j_key j) (j_prompt j)]\<rparr>))"

text \<open>
  From \<open>abortController = new AbortController()\<close> into the loop, with the configurations
  to try.
\<close>

definition enter_loop :: "config list \<Rightarrow> job \<Rightarrow> client \<Rightarrow> (string \<times> client) + (job \<times> client)" where
  "enter_loop configs j s =
     loop_head (j\<lparr>j_configs := configs, j_lastError := None, j_signal := next_controller s\<rparr>)
       (s\<lparr>abortController := Some (next_controller s), next_controller := Suc (next_controller s)\<rparr>)"

text \<open>
  tryGenerateWithKey up to its first await: the first call for a key (by the first 10
  characters) asks for the available models first; a later call goes into the loop.
\<close>

definition tryGenerateWithKey :: "string \<Rightarrow> job \<Rightarrow> client \<Rightarrow> (string \<times> client) + (job \<times> client)" where
  "tryGenerateWithKey apiKey j s =
     (let j1 = j\<lparr>j_key := apiKey, j_prompt := build_prompt s (j_combinedMessage j)\<rparr>
      in if take 10 apiKey \<notin> set (models_checked s)
         then Inr (j1\<lparr>j_wait := AwaitListModels, j_configs := [], j_lastError := None\<rparr>,
                   s\<lparr>models_checked := take 10 apiKey # models_checked s,
                     http_log := http_log s @ [ListModels apiKey]\<rparr>)
         else enter_loop modelConfigs j1 s)"

text \<open>checkAvailableModels, from what its fetch came to.\<close>

definition strip_models_prefix :: "string \<Rightarrow> string" where
  "strip_models_prefix fullName =
     (if startsWith fullName ''models/'' then drop 7 fullName else fullName)"

definition checkAvailableModels :: "lm_outcome \<Rightarrow> string list option" where
  "checkAvailableModels lm =
     (case lm of
        LM_Fail \<Rightarrow> None
      | LM_Models models \<Rightarrow>
          Some (map (\<lambda>m. strip_models_prefix (fst m))
                  (filter (\<lambda>m. str_includes (fst m) ''gemini'' \<and> ''generateContent'' \<in> set (snd m)) models)))"

text \<open>tryGenerateWithKey after \<open>await checkAvailableModels(apiKey)\<close>: new models go first.\<close>

definition after_models :: "string list option \<Rightarrow> job \<Rightarrow> client \<Rightarrow> (string \<times> client) + (job \<times> client)" where
  "after_models availableModels j s =
     enter_loop
       ((case availableModels of
           None \<Rightarrow> []
         | Some names \<Rightarrow> map (\<lambda>n. (n, ''v1beta'')) (filter (\<lambda>n. n \<notin> set (map fst modelConfigs)) names))
        @ modelConfigs) j s"

text \<open>
  The rest of generateAIResponse once the first key has failed: the \<open>for\<close> loop over the
  stored keys other than the first one, every failure caught and the loop continued;
  then the built-in key if it is enabled and was not the first key; then \<open>throw error\<close>,
  the error of the first key.
\<close>

fun try_other_keys :: "string list \<Rightarrow> job \<Rightarrow> client \<Rightarrow> progress" where
  "try_other_keys [] j s =
     (if DEFAULT_BUILTIN_API_KEY \<noteq> [] \<and> j_apiKey j \<noteq> DEFAULT_BUILTIN_API_KEY
         \<and> ls_use_builtin_key s \<noteq> Some ''false''
      then (case tryGenerateWithKey DEFAULT_BUILTIN_API_KEY (j\<lparr>j_phase := Builtin\<rparr>) s of
              Inr (j', s') \<Rightarrow> Suspended j' s'
            | Inl (e, s') \<Rightarrow> Rejected (j_error j) s')
      else Rejected (j_error j) s)"
| "try_other_keys (key # rest) j s =
     (if key \<noteq> j_apiKey j
      then (case tryGenerateWithKey key (j\<lparr>j_phase := Alternatives rest\<rparr>) s of
              Inr (j', s') \<Rightarrow> Suspended j' s'
            | Inl (e, s') \<Rightarrow> try_other_keys rest j s')
      else try_other_keys rest j s)"

text \<open>A call of tryGenerateWithKey has thrown \<open>message\<close>: the \<open>catch\<close> that is in charge.\<close>

definition key_failed :: "string \<Rightarrow> job \<Rightarrow> client \<Rightarrow> progress" where
  "key_failed message j s =
     (case j_phase j of
        Primary \<Rightarrow>
          (case getUserApiKeys s of
             (keys, s1) \<Rightarrow> try_other_keys (map k_key keys) (j\<lparr>j_error := message\<rparr>) s1)
      | Alternatives rest \<Rightarrow> try_other_keys rest j s
      | Builtin \<Rightarrow> Rejected (j_error j) s)"

definition settle :: "(string \<times> client) + (job \<times> client) \<Rightarrow> job \<Rightarrow> progress" where
  "settle r j =
     (case r of
        Inr (j', s') \<Rightarrow> Suspended j' s'
      | Inl (message, s') \<Rightarrow> key_failed message j s')"

text \<open>
  A suspended call resumes with what its fetch came to. A fetch whose signal is aborted
  rejects with an \<open>AbortError\<close>.
\<close>

definition resume_fetch :: "outcome \<Rightarrow> job \<Rightarrow> client \<Rightarrow> progress" where
  "resume_fetch out j s =
     (case j_configs j of
        [] \<Rightarrow> settle (loop_head j s) j
      | cfg # rest \<Rightarrow>
          (case attempt cfg (j_signal j \<in> set (aborted_signals s)) (j_lastError j)
                  (if j_signal j \<in> set (aborted_signals s) then AbortError else out) of
             Return aiResponse \<Rightarrow>
               Resolved aiResponse
                 (s\<lparr>conversationHistory := conversationHistory s @ [(''assistant'', aiResponse)]\<rparr>)
           | Throw message \<Rightarrow> key_failed message j s
           | Continue lastError \<Rightarrow>
               settle (loop_head (j\<lparr>j_configs := rest, j_lastError := lastError\<rparr>) s) j))"

definition resume_models :: "lm_outcome \<Rightarrow> job \<Rightarrow> client \<Rightarrow> progress" where
  "resume_models lm j s = settle (after_models (checkAvailableModels lm) j s) j"

text \<open>generateAIResponse up to its first await.\<close>

definition generateAIResponse :: "jstring \<Rightarrow> jstring list \<Rightarrow> client \<Rightarrow> progress" where
  "generateAIResponse combinedMessage originalMessages s =
     (let s0 = s\<lparr>gen_calls := gen_calls s @ [(combinedMessage, originalMessages)]\<rparr>;
          s1 = s0\<lparr>conversationHistory := conversationHistory s0 @
                    (if originalMessages \<noteq> [] then map (\<lambda>msg. (''user'', msg)) originalMessages
                     else [(''user'', combinedMessage)])\<rparr>
      in case getActiveApiKey s1 of
           (active, s2) \<Rightarrow>
             let k1 = (if falsy active then ls_gemini_api_key s2 else active);
                 k2 = (if falsy k1 \<and> DEFAULT_BUILTIN_API_KEY \<noteq> [] then Some DEFAULT_BUILTIN_API_KEY else k1);
                 s3 = (if falsy k1 \<and> DEFAULT_BUILTIN_API_KEY \<noteq> [] \<and> ls_use_builtin_key s2 = None
                       then s2\<lparr>ls_use_builtin_key := Some ''true''\<rparr> else s2)
             in if falsy k2
                then Rejected ''No API key configured. Please configure an API key to use the AI assistant.'' s3
                else
                  (let j = \<lparr>j_combinedMessage = combinedMessage, j_originalMessages = originalMessages,
                            j_apiKey = str k2, j_error = [], j_phase = Primary, j_key = str k2,
                            j_prompt = [], j_wait = AwaitListModels, j_configs = [],
                            j_lastError = None, j_signal = 0\<rparr>
                   in settle (tryGenerateWithKey (str k2) j s3) j))"

subsection \<open>Batching\<close>

text \<open>The \<open>if\<close> chain that picks the message shown for a failed generation.\<close>

definition categorize :: "string \<Rightarrow> error_category" where
  "categorize errorMsg =
     (if str_includes errorMsg ''401'' \<or> str_includes errorMsg ''API key''
         \<or> str_includes errorMsg ''authentication'' \<or> str_includes errorMsg ''authentication failed''
      then AuthIssue
      else if str_includes errorMsg ''403'' then AccessDenied
      else if str_includes errorMsg ''429'' \<or> str_includes errorMsg ''rate limit'' then TooManyRequests
      else if str_includes errorMsg ''400'' then BadRequest
      else if str_includes errorMsg ''not found'' \<or> str_includes errorMsg ''404'' then ServiceUnavailable
      else if str_includes errorMsg ''All API model configurations failed''
              \<or> str_includes errorMsg ''All models'' then ConnectionFailed
      else if str_includes errorMsg ''fetch'' \<or> str_includes errorMsg ''network''
              \<or> str_includes errorMsg ''Failed to fetch'' then NetworkIssue
      else if str_includes errorMsg ''is not defined'' then ServiceError
      else ConnectionError)"

definition setTimeout_batch :: "client \<Rightarrow> client" where
  "setTimeout_batch s =
     s\<lparr>timers := timers s @ [(next_timer s, clock s + BATCH_DELAY)],
       batchTimeout := Some (next_timer s), next_timer := Suc (next_timer s)\<rparr>"

definition clearTimeout :: "nat \<Rightarrow> client \<Rightarrow> client" where
  "clearTimeout t s = s\<lparr>timers := filter (\<lambda>x. fst x \<noteq> t) (timers s)\<rparr>"

text \<open>\<open>abortController && abortController.signal.aborted\<close>\<close>

definition controller_aborted :: "client \<Rightarrow> bool" where
  "controller_aborted s =
     (case abortController s of None \<Rightarrow> False | Some c \<Rightarrow> c \<in> set (aborted_signals s))"

text \<open>
  processBatchedMessages from the statement after the \<open>try\<close>: the flag is reset, and
  messages that arrived meanwhile get a timer of their own.
\<close>

definition after_try :: "client \<Rightarrow> client" where
  "after_try s =
     (let s1 = s\<lparr>isGeneratingResponse := False, abortController := None\<rparr>
      in if pendingMessages s1 \<noteq> [] \<and> abortController s1 = None then setTimeout_batch s1 else s1)"

text \<open>processBatchedMessages when generateAIResponse has returned or thrown.\<close>

definition finish_batch :: "string + jstring \<Rightarrow> client \<Rightarrow> client" where
  "finish_batch r s =
     (case r of
        Inr response \<Rightarrow>
          if controller_aborted s then s
          else after_try (s\<lparr>dom_messages := dom_messages s @ [AIMsg response]\<rparr>)
      | Inl message \<Rightarrow>
          if message = ''Request cancelled by user'' \<or> controller_aborted s then s
          else after_try (s\<lparr>dom_messages := dom_messages s @ [AIError (categorize message)]\<rparr>))"

definition processBatchedMessages :: "client \<Rightarrow> client" where
  "processBatchedMessages s =
     (if isGeneratingResponse s \<or> pendingMessages s = [] then s
      else
        (case generateAIResponse (join (nl @ nl) (pendingMessages s)) (pendingMessages s)
                (s\<lparr>isGeneratingResponse := True, pendingMessages := []\<rparr>) of
           Suspended j s' \<Rightarrow> s'\<lparr>jobs := jobs s' @ [j]\<rparr>
         | Resolved response s' \<Rightarrow> finish_batch (Inr response) s'
         | Rejected message s' \<Rightarrow> finish_batch (Inl message) s'))"

text \<open>
  sendMessage; the argument is \<open>None\<close> when the function is called without one (the Send
  button, the Enter key).
\<close>

definition message_to_send :: "jstring option \<Rightarrow> client \<Rightarrow> jstring" where
  "message_to_send msg s =
     (case msg of
        None \<Rightarrow> trim (input_value s)
      | Some m \<Rightarrow> if m = [] then trim (input_value s) else m)"

definition sendMessage :: "jstring option \<Rightarrow> client \<Rightarrow> client" where
  "sendMessage msg s =
     (if isGeneratingResponse s then s
      else if message_to_send msg s = [] then s
      else
        (let s1 = s\<lparr>input_value := [],
                     dom_messages := dom_messages s @ [UserMsg (message_to_send msg s)],
                     pendingMessages := pendingMessages s @ [message_to_send msg s]\<rparr>
         in setTimeout_batch (case batchTimeout s1 of None \<Rightarrow> s1 | Some t \<Rightarrow> clearTimeout t s1)))"

definition stopAIResponse :: "client \<Rightarrow> client" where
  "stopAIResponse s =
     (let s1 = (case abortController s of
                  None \<Rightarrow> s
                | Some c \<Rightarrow> s\<lparr>aborted_signals := c # aborted_signals s\<rparr>);
          s2 = (case batchTimeout s1 of
                  None \<Rightarrow> s1
                | Some t \<Rightarrow> (clearTimeout t s1)\<lparr>batchTimeout := None\<rparr>)
      in s2\<lparr>isGeneratingResponse := False, pendingMessages := [], abortController := None\<rparr>)"

subsection \<open>The event loop\<close>

text \<open>
  What can happen next in the page: the user sends (with an argument for the quick
  buttons), types, or stops; time passes; a due batch timer runs its callback; the fetch
  a suspended call waits for comes back. Stop is offered only while a response is being
  generated (the Send button is the Stop button then, and Enter stops). An event that
  cannot happen in the state gives \<open>None\<close>.
\<close>

datatype event =
  Send "jstring option"
  | Type jstring
  | Stop
  | Tick nat
  | TimerFires nat
  | ListModelsDone nat lm_outcome
  | FetchDone nat outcome

definition drop_job :: "nat \<Rightarrow> client \<Rightarrow> client" where
  "drop_job k s = s\<lparr>jobs := take k (jobs s) @ drop (Suc k) (jobs s)\<rparr>"

text \<open>The call at position \<open>k\<close> has run on: it waits again, or processBatchedMessages goes on.\<close>

definition advance :: "nat \<Rightarrow> progress \<Rightarrow> client" where
  "advance k p =
     (case p of
        Suspended j s' \<Rightarrow> s'\<lparr>jobs := (jobs s')[k := j]\<rparr>
      | Resolved response s' \<Rightarrow> finish_batch (Inr response) (drop_job k s')
      | Rejected message s' \<Rightarrow> finish_batch (Inl message) (drop_job k s'))"

definition step :: "event \<Rightarrow> client \<Rightarrow> client option" where
  "step e s =
     (case e of
        Send msg \<Rightarrow> Some (sendMessage msg s)
      | Type v \<Rightarrow> Some (s\<lparr>input_value := v\<rparr>)
      | Stop \<Rightarrow> if isGeneratingResponse s then Some (stopAIResponse s) else None
      | Tick n \<Rightarrow> Some (s\<lparr>clock := clock s + n\<rparr>)
      | TimerFires t \<Rightarrow>
          if list_ex (\<lambda>x. fst x = t \<and> snd x \<le> clock s) (timers s)
          then Some (processBatchedMessages (clearTimeout t s))
          else None
      | ListModelsDone k lm \<Rightarrow>
          if k < length (jobs s) \<and> j_wait (jobs s ! k) = AwaitListModels
          then Some (advance k (resume_models lm (jobs s ! k) s))
          else None
      | FetchDone k out \<Rightarrow>
          if k < length (jobs s) \<and> j_wait (jobs s ! k) = AwaitGenerate
             \<and> (out = AbortError \<longrightarrow> j_signal (jobs s ! k) \<in> set (aborted_signals s))
          then Some (advance k (resume_fetch out (jobs s ! k) s))
          else None)"

fun run :: "event list \<Rightarrow> client \<Rightarrow> client option" where
  "run [] s = Some s"
| "run (e # es) s = (case step e s of None \<Rightarrow> None | Some s' \<Rightarrow> run es s')"

text \<open>The states the page can be in.\<close>

inductive reachable :: "jstring \<Rightarrow> client \<Rightarrow> bool" for sp :: jstring where
  reach_start: "reachable sp (fresh_client sp)"
| reach_step: "reachable sp s \<Longrightarrow> step e s = Some s' \<Longrightarrow> reachable sp s'"

text \<open>
  What the generation code leaves alone: the batch, its timer, the flag, the clock, the
  message area, the suspended calls and the log of generateAIResponse calls.
\<close>

definition same_batch :: "client \<Rightarrow> client \<Rightarrow> bool" where
  "same_batch s s' =
     (pendingMessages s' = pendingMessages s \<and> batchTimeout s' = batchTimeout s
      \<and> isGeneratingResponse s' = isGeneratingResponse s \<and> timers s' = timers s
      \<and> next_timer s' = next_timer s \<and> clock s' = clock s \<and> jobs s' = jobs s
      \<and> gen_calls s' = gen_calls s \<and> input_value s' = input_value s
      \<and> dom_messages s' = dom_messages s)"

definition state_of :: "progress \<Rightarrow> client" where
  "state_of p = (case p of Suspended j s \<Rightarrow> s | Resolved r s \<Rightarrow> s | Rejected m s \<Rightarrow> s)"

definition state_after :: "(string \<times> client) + (job \<times> client) \<Rightarrow> client" where
  "state_after r = (case r of Inl (m, s) \<Rightarrow> s | Inr (j, s) \<Rightarrow> s)"

text \<open>The states the page can be in when the user never stops a generation.\<close>

inductive reachable_unstopped :: "jstring \<Rightarrow> client \<Rightarrow> bool" for sp :: jstring where
  unstopped_start: "reachable_unstopped sp (fresh_client sp)"
| unstopped_step: "reachable_unstopped sp s \<Longrightarrow> e \<noteq> Stop \<Longrightarrow> step e s = Some s' \<Longrightarrow> reachable_unstopped sp s'"




text \<open>An endpoint that rejects the API key.\<close>

definition invalid_key :: outcome where
  "invalid_key = NotOk 401 (ErrJson ''API key not valid. Please pass a valid API key.'' ''{}'')
                   (Inl ''body stream already read'')"

text \<open>At most one suspended call of generateAIResponse, and the flag set while there is one.\<close>

definition at_most_one_job :: "client \<Rightarrow> bool" where
  "at_most_one_job s = (length (jobs s) \<le> 1 \<and> (jobs s \<noteq> [] \<longrightarrow> isGeneratingResponse s))"


text \<open>An endpoint that knows none of the models.\<close>

definition model_not_found :: outcome where
  "model_not_found = NotOk 404 (ErrJson ''models/x is not found for API version v1beta'' ''{}'')
                       (Inl ''body stream already read'')"

text \<open>The small database with a second, later conversation of Ann (9, no messages).\<close>

definition listing_db :: db where
  "listing_db =
     demo_db\<lparr>conversations := conversations demo_db @
        [\<lparr>c_id = 9, c_user_id = 1, c_title = ''Later'', c_created_at = 10, c_updated_at = 12,
          c_is_archived = Some False\<rparr>]\<rparr>"

subsection \<open>The signup handler, statement by statement\<close>

text \<open>
  The signup handler awaits three times: the \<open>SELECT\<close> that looks for the email,
  \<open>bcrypt.hash\<close>, and the \<open>INSERT\<close>. Between them the statements of another request can
  run, as for the message handler.
\<close>

datatype su_pc =
  SU_Select
  | SU_Hash
  | SU_Insert string
  | SU_Done response

record su_task =
  st_now :: timestamp
  st_body :: body
  st_pc :: su_pc

text \<open>The synchronous prefix: the two validation guards.\<close>

definition su_accept :: "timestamp \<Rightarrow> request \<Rightarrow> su_task" where
  "su_accept now req =
     \<lparr>st_now = now, st_body = rq_body req,
      st_pc = (if falsy (b_name (rq_body req)) \<or> falsy (b_email (rq_body req))
                  \<or> falsy (b_password (rq_body req))
               then SU_Done (reply 400 (err ''Name, email, and password are required''))
               else if length (str (b_password (rq_body req))) < 6
               then SU_Done (reply 400 (err ''Password must be at least 6 characters''))
               else SU_Select)\<rparr>"

definition su_step :: "libs \<Rightarrow> db \<Rightarrow> su_task \<Rightarrow> db \<times> su_task" where
  "su_step L d t =
     (case st_pc t of
        SU_Select \<Rightarrow>
          if sql_users_by_email d (str (b_email (st_body t))) \<noteq> []
          then (d, t\<lparr>st_pc := SU_Done (reply 400 (err ''User with this email already exists''))\<rparr>)
          else (d, t\<lparr>st_pc := SU_Hash\<rparr>)
      | SU_Hash \<Rightarrow> (d, t\<lparr>st_pc := SU_Insert (bcrypt_hash L (str (b_password (st_body t))))\<rparr>)
      | SU_Insert hashedPassword \<Rightarrow>
          (case sql_insert_user d (st_now t) (str (b_name (st_body t))) (str (b_email (st_body t)))
                  hashedPassword of
             Inl e \<Rightarrow> (d, t\<lparr>st_pc := SU_Done (failure L ''Failed to create user: '' e)\<rparr>)
           | Inr (d', user) \<Rightarrow>
               (d', t\<lparr>st_pc := SU_Done (reply 201 (JObj [(''success'', JBool True),
                          (''user'', user_json user True),
                          (''token'', JStr (jwt_sign L (u_id user, u_email user) (st_now t)))]))\<rparr>))
      | SU_Done r \<Rightarrow> (d, t))"

fun su_interleave :: "libs \<Rightarrow> db \<times> su_task list \<Rightarrow> nat list \<Rightarrow> db \<times> su_task list" where
  "su_interleave L st [] = st"
| "su_interleave L (d, ts) (k # ks) =
     (if k < length ts
      then (case su_step L d (ts ! k) of (d', t') \<Rightarrow> su_interleave L (d', ts[k := t']) ks)
      else su_interleave L (d, ts) ks)"

definition ann_signup :: request where
  "ann_signup = \<lparr>rq_route = AuthSignup, rq_authorization = None, rq_body = ann_body\<rparr>"

section \<open>Verified properties of the server\<close>

subsection \<open>Signup validation\<close>

text \<open>
  C9. A signup whose name, email or password is missing or empty, or whose password has
  fewer than 6 characters, is answered 400 with a JSON error, the database is returned
  as it was, and the answer is a function of the request alone: no query is made.
\<close>

theorem signup_validation_rejects:
  assumes "rq_route req = AuthSignup"
    and "falsy (b_name (rq_body req)) \<or> falsy (b_email (rq_body req))
         \<or> falsy (b_password (rq_body req)) \<or> length (str (b_password (rq_body req))) < 6"
  shows "handle L now d req =
         (d, reply 400 (err (if falsy (b_name (rq_body req)) \<or> falsy (b_email (rq_body req))
                                \<or> falsy (b_password (rq_body req))
                             then ''Name, email, and password are required''
                             else ''Password must be at least 6 characters'')))"
  using assms by (auto simp: handle_def signup_def)

theorem signup_validation_rejects_witness:
  "length (str (b_password (ann_body\<lparr>b_password := Some ''12345''\<rparr>))) < 6
   \<and> handle toy_libs 7 empty_db
         \<lparr>rq_route = AuthSignup, rq_authorization = None,
          rq_body = ann_body\<lparr>b_password := Some ''12345''\<rparr>\<rparr>
       = (empty_db, reply 400 (err ''Password must be at least 6 characters''))"
  using signup_validation_rejects
          [of "\<lparr>rq_route = AuthSignup, rq_authorization = None,
                rq_body = ann_body\<lparr>b_password := Some ''12345''\<rparr>\<rparr>" toy_libs 7 empty_db]
  by (simp add: ann_body_def no_body_def falsy_def)

subsection \<open>Authentication middleware\<close>

text \<open>
  C6. On every route registered with \<open>authenticateToken\<close>, a request from which the
  middleware extracts no token is answered 401, and one whose token \<open>jwt.verify\<close> rejects
  is answered 403, both with a JSON error body. The answer is that of the middleware
  whatever the handler \<open>h\<close> behind it is, and the database is returned unchanged.
\<close>

theorem protected_routes_reject_unauthenticated:
  assumes "is_protected (rq_route req)"
  shows "(bearer_token (rq_authorization req) = None \<longrightarrow>
            handle L now d req = (d, reply 401 (err ''Access token required''))
            \<and> protected L now req d h = (d, reply 401 (err ''Access token required'')))
       \<and> (\<forall>t. bearer_token (rq_authorization req) = Some t \<and> jwt_verify L t now = None \<longrightarrow>
            handle L now d req = (d, reply 403 (err ''Invalid or expired token''))
            \<and> protected L now req d h = (d, reply 403 (err ''Invalid or expired token'')))"
  using assms
  by (cases "rq_route req") (auto simp: handle_def protected_def authenticateToken_def)

theorem protected_routes_reject_unauthenticated_witness:
  "is_protected (MessagesPost (Some 2))
   \<and> bearer_token None = None
   \<and> handle toy_libs 7 empty_db
        \<lparr>rq_route = MessagesPost (Some 2), rq_authorization = None, rq_body = no_body\<rparr>
      = (empty_db, reply 401 (err ''Access token required''))
   \<and> bearer_token (Some ''Bearer forged'') = Some ''forged''
   \<and> jwt_verify toy_libs ''forged'' 7 = None
   \<and> handle toy_libs 7 empty_db
        \<lparr>rq_route = MessagesPost (Some 2), rq_authorization = Some ''Bearer forged'',
         rq_body = no_body\<rparr>
      = (empty_db, reply 403 (err ''Invalid or expired token''))"
  using protected_routes_reject_unauthenticated
          [of "\<lparr>rq_route = MessagesPost (Some 2), rq_authorization = None, rq_body = no_body\<rparr>"
              toy_libs 7 empty_db]
        protected_routes_reject_unauthenticated
          [of "\<lparr>rq_route = MessagesPost (Some 2), rq_authorization = Some ''Bearer forged'',
                rq_body = no_body\<rparr>" toy_libs 7 empty_db]
  by (simp add: bearer_token_def toy_libs_def)

lemma ann_authenticated:
  "authenticateToken toy_libs now (ann_request r b) = Inr (1, ''ann@example.org'', 0, 604800)"
  by (simp add: authenticateToken_def ann_request_def ann_token_def bearer_token_def toy_libs_def)

subsection \<open>Deleting a conversation\<close>

text \<open>
  C5. When the authenticated user owns conversation \<open>i\<close>, \<open>DELETE /api/conversations/i\<close>
  answers success; afterwards no message row refers to \<open>i\<close>, the conversation is gone,
  and the messages of the other conversations, the other conversations, the users and
  the settings are as before.
\<close>

theorem delete_conversation_cascades:
  assumes "rq_route req = ConversationDelete (Some i)"
    and "authenticateToken L now req = Inr user"
    and "\<exists>c \<in> set (conversations d). c_id c = i \<and> c_user_id c = fst user"
  shows "handle L now d req = (sql_delete_conversation d i, reply 200 (JObj [(''success'', JBool True)]))
       \<and> filter (\<lambda>m. m_conversation_id m = i) (messages (fst (handle L now d req))) = []
       \<and> filter (\<lambda>m. m_conversation_id m \<noteq> i) (messages (fst (handle L now d req)))
           = filter (\<lambda>m. m_conversation_id m \<noteq> i) (messages d)
       \<and> conversations (fst (handle L now d req)) = filter (\<lambda>c. c_id c \<noteq> i) (conversations d)
       \<and> users (fst (handle L now d req)) = users d
       \<and> user_settings (fst (handle L now d req)) = user_settings d"
proof -
  from assms(3) have "sql_conv_check d i (fst user) \<noteq> []"
    by (auto simp: sql_conv_check_def filter_empty_conv)
  then obtain x xs where "sql_conv_check d i (fst user) = x # xs"
    by (cases "sql_conv_check d i (fst user)") auto
  with assms(1,2) have h: "handle L now d req
      = (sql_delete_conversation d i, reply 200 (JObj [(''success'', JBool True)]))"
    by (simp add: handle_def protected_def delete_conversation_def)
  show ?thesis unfolding h by (simp add: sql_delete_conversation_def)
qed

theorem delete_conversation_cascades_witness:
  "authenticateToken toy_libs 20 (ann_request (ConversationDelete (Some 3)) no_body)
     = Inr (1, ''ann@example.org'', 0, 604800)
   \<and> (\<exists>c \<in> set (conversations demo_db). c_id c = 3 \<and> c_user_id c = 1)
   \<and> map m_id (messages (fst (handle toy_libs 20 demo_db
                                  (ann_request (ConversationDelete (Some 3)) no_body)))) = [7]
   \<and> map c_id (conversations (fst (handle toy_libs 20 demo_db
                                  (ann_request (ConversationDelete (Some 3)) no_body)))) = [4, 5]"
proof -
  have a: "authenticateToken toy_libs 20 (ann_request (ConversationDelete (Some 3)) no_body)
            = Inr (1, ''ann@example.org'', 0, 604800)"
    by (rule ann_authenticated)
  have r: "rq_route (ann_request (ConversationDelete (Some 3)) no_body) = ConversationDelete (Some 3)"
    by (simp add: ann_request_def)
  have o: "\<exists>c \<in> set (conversations demo_db). c_id c = 3 \<and> c_user_id c = fst (1::nat, ''ann@example.org'', 0::nat, 604800::nat)"
    by (simp add: demo_db_def)
  from delete_conversation_cascades [OF r a o] a o show ?thesis
    by (simp add: sql_delete_conversation_def demo_db_def)
qed

subsection \<open>Listing conversations\<close>

text \<open>
  C10. For an authenticated user, \<open>GET /api/conversations\<close> answers 200 with an array
  that has one entry per conversation that belongs to the user and has
  \<open>is_archived = false\<close>, and no other entry; each entry is the object with the
  \<open>id\<close>, \<open>title\<close>, \<open>createdAt\<close> and \<open>updatedAt\<close> of its conversation and, as
  \<open>messageCount\<close>, the number of messages of that conversation; the entries are in
  descending order of \<open>updated_at\<close>. The database is not changed.
\<close>

theorem get_conversations_lists_own_unarchived:
  assumes "rq_route req = ConversationsGet"
    and "authenticateToken L now req = Inr user"
  shows "\<exists>rows. handle L now d req =
            (d, reply 200 (JArr (map (\<lambda>row.
                   JObj [(''id'', JNum (int (c_id (fst row)))), (''title'', JStr (c_title (fst row))),
                         (''createdAt'', JNum (int (c_created_at (fst row)))),
                         (''updatedAt'', JNum (int (c_updated_at (fst row)))),
                         (''messageCount'', JNum (int (snd row)))]) rows)))
       \<and> mset (map fst rows)
           = mset (filter (\<lambda>c. c_user_id c = fst user \<and> c_is_archived c = Some False) (conversations d))
       \<and> (\<forall>row \<in> set rows.
             snd row = length (filter (\<lambda>m. m_conversation_id m = c_id (fst row)) (messages d)))
       \<and> sorted_wrt (\<lambda>a b. c_updated_at (fst a) \<ge> c_updated_at (fst b)) rows"
proof -
  let ?rows = "sql_list_conversations d (fst user)"
  let ?xs = "filter (\<lambda>c. c_user_id c = fst user \<and> c_is_archived c = Some False) (conversations d)"
  let ?g = "\<lambda>c. (c, length (filter (\<lambda>m. m_conversation_id m = c_id c) (messages d)))"
  have 1: "handle L now d req =
            (d, reply 200 (JArr (map (\<lambda>row.
                   JObj [(''id'', JNum (int (c_id (fst row)))), (''title'', JStr (c_title (fst row))),
                         (''createdAt'', JNum (int (c_created_at (fst row)))),
                         (''updatedAt'', JNum (int (c_updated_at (fst row)))),
                         (''messageCount'', JNum (int (snd row)))]) ?rows)))"
    using assms by (simp add: handle_def protected_def get_conversations_def summary_json_def[abs_def])
  have a: "mset ?rows = mset (map ?g ?xs)"
    unfolding sql_list_conversations_def by (rule mset_sort)
  have "mset (map fst ?rows) = image_mset fst (mset ?rows)" by simp
  also have "\<dots> = image_mset fst (mset (map ?g ?xs))" by (simp only: a)
  also have "\<dots> = mset (map fst (map ?g ?xs))" by (simp only: mset_map)
  also have "\<dots> = mset ?xs" by (simp only: map_map comp_def fst_conv map_ident)
  finally have 2: "mset (map fst ?rows) = mset ?xs" .
  have 3: "\<forall>row \<in> set ?rows.
             snd row = length (filter (\<lambda>m. m_conversation_id m = c_id (fst row)) (messages d))"
    by (auto simp: sql_list_conversations_def)
  have "sorted (map (\<lambda>r. - int (c_updated_at (fst r))) ?rows)"
    unfolding sql_list_conversations_def by (rule sorted_sort_key)
  then have 4: "sorted_wrt (\<lambda>a b. c_updated_at (fst a) \<ge> c_updated_at (fst b)) ?rows"
    by (simp add: sorted_map sorted_wrt_iff_nth_less)
  from 1 2 3 4 show ?thesis by blast
qed


theorem get_conversations_lists_own_unarchived_witness:
  "authenticateToken toy_libs 20 (ann_request ConversationsGet no_body)
     = Inr (1, ''ann@example.org'', 0, 604800)
   \<and> map c_id (conversations listing_db) = [3, 4, 5, 9]
   \<and> handle toy_libs 20 listing_db (ann_request ConversationsGet no_body)
      = (listing_db, reply 200 (JArr
           [JObj [(''id'', JNum 9), (''title'', JStr ''Later''),
                  (''createdAt'', JNum 10), (''updatedAt'', JNum 12), (''messageCount'', JNum 0)],
            JObj [(''id'', JNum 3), (''title'', JStr ''Hello''),
                  (''createdAt'', JNum 3), (''updatedAt'', JNum 9), (''messageCount'', JNum 2)]]))"
proof -
  let ?req = "ann_request ConversationsGet no_body"
  have a: "authenticateToken toy_libs 20 ?req = Inr (1, ''ann@example.org'', 0, 604800)"
    by (rule ann_authenticated)
  have r: "rq_route ?req = ConversationsGet"
    by (simp add: ann_request_def)
  have c: "map c_id (conversations listing_db) = [3, 4, 5, 9]"
    by (simp add: listing_db_def demo_db_def)
  from get_conversations_lists_own_unarchived [OF r a, of listing_db]
  obtain rows where h: "handle toy_libs 20 listing_db ?req =
            (listing_db, reply 200 (JArr (map (\<lambda>row.
                   JObj [(''id'', JNum (int (c_id (fst row)))), (''title'', JStr (c_title (fst row))),
                         (''createdAt'', JNum (int (c_created_at (fst row)))),
                         (''updatedAt'', JNum (int (c_updated_at (fst row)))),
                         (''messageCount'', JNum (int (snd row)))]) rows)))"
    and m: "mset (map fst rows)
           = mset (filter (\<lambda>c. c_user_id c = fst (1::nat, ''ann@example.org'', 0::nat, 604800::nat)
                                 \<and> c_is_archived c = Some False) (conversations listing_db))"
    and n: "\<forall>row \<in> set rows.
             snd row = length (filter (\<lambda>m. m_conversation_id m = c_id (fst row)) (messages listing_db))"
    and o: "sorted_wrt (\<lambda>a b. c_updated_at (fst a) \<ge> c_updated_at (fst b)) rows"
    by blast
  let ?c3 = "\<lparr>c_id = 3, c_user_id = 1, c_title = ''Hello'', c_created_at = 3, c_updated_at = 9,
          c_is_archived = Some False\<rparr>"
  let ?c9 = "\<lparr>c_id = 9, c_user_id = 1, c_title = ''Later'', c_created_at = 10, c_updated_at = 12,
          c_is_archived = Some False\<rparr>"
  from m have m': "mset (map fst rows) = {#?c3, ?c9#}"
    by (simp add: listing_db_def demo_db_def)
  then have "length rows = 2"
    by (metis length_map size_mset size_add_mset size_empty One_nat_def Suc_1)
  then obtain x y where xy: "rows = [x, y]"
    by (metis (no_types, opaque_lifting) One_nat_def Suc_1 length_0_conv length_Suc_conv)
  from m' xy have "set_mset (mset (map fst rows)) = {?c3, ?c9}" by simp
  with xy have "{fst x, fst y} = {?c3, ?c9}" by simp
  then have "(fst x = ?c3 \<and> fst y = ?c9) \<or> (fst x = ?c9 \<and> fst y = ?c3)"
    by (simp only: doubleton_eq_iff)
  with o xy have f: "fst x = ?c9" "fst y = ?c3" by auto
  from n xy f have "snd x = 0" "snd y = 2"
    by (simp_all add: listing_db_def demo_db_def)
  with f have "x = (?c9, 0)" "y = (?c3, 2)" by (simp_all add: prod_eq_iff)
  with h xy a c show ?thesis by simp
qed

subsection \<open>Signup\<close>

text \<open>
  The handler of the HTTP model is the signup task with its three awaited statements run in
  a row: whatever other signup tasks are suspended, running task \<open>k\<close> from its start for
  three steps changes the database and answers as \<open>handle\<close> does, and leaves the other
  tasks as they were.
\<close>

lemma su_alone_is_handler:
  assumes "rq_route req = AuthSignup" and "k < length ts" and "ts ! k = su_accept now req"
  shows "su_interleave L (d, ts) [k, k, k]
         = (fst (handle L now d req),
            ts[k := (su_accept now req)\<lparr>st_pc := SU_Done (snd (handle L now d req))\<rparr>])"
  using assms
  by (auto simp: handle_def signup_def su_accept_def su_step_def list_update_same_conv
           split: sum.splits)

text \<open>
  C7, as the claim states it, fails in two ways. First, on a name that does not fit its
  \<open>VARCHAR(255)\<close> column: name, email and password are present, the password is long
  enough and the email is new, yet the \<open>INSERT\<close> throws and the handler answers 500 without
  creating the user. Second, on two overlapping signups with the same new email and
  short fields: both run their \<open>SELECT\<close> on a table without the email and go on to hash
  the password; the first \<open>INSERT\<close> creates the user and is answered 201, the second
  violates the \<open>UNIQUE\<close> constraint of the email column and is answered 500, neither the
  400 of a duplicate nor the 201 of a created user.
\<close>

theorem signup_not_created_counterexample:
  "\<not> falsy (b_name (ann_body\<lparr>b_name := Some (replicate 256 CHR ''a'')\<rparr>))
   \<and> \<not> falsy (b_email (ann_body\<lparr>b_name := Some (replicate 256 CHR ''a'')\<rparr>))
   \<and> \<not> falsy (b_password (ann_body\<lparr>b_name := Some (replicate 256 CHR ''a'')\<rparr>))
   \<and> 6 \<le> length (str (b_password (ann_body\<lparr>b_name := Some (replicate 256 CHR ''a'')\<rparr>)))
   \<and> sql_users_by_email empty_db ''ann@example.org'' = []
   \<and> handle toy_libs 7 empty_db
        \<lparr>rq_route = AuthSignup, rq_authorization = None,
         rq_body = ann_body\<lparr>b_name := Some (replicate 256 CHR ''a'')\<rparr>\<rparr>
      = (empty_db, reply 500 (err ''Failed to create user: database error''))
   \<and> rq_route ann_signup = AuthSignup \<and> rq_body ann_signup = ann_body
   \<and> \<not> falsy (b_name ann_body) \<and> \<not> falsy (b_email ann_body) \<and> \<not> falsy (b_password ann_body)
   \<and> 6 \<le> length (str (b_password ann_body))
   \<and> length (str (b_name ann_body)) \<le> 255 \<and> length (str (b_email ann_body)) \<le> 255
   \<and> length (bcrypt_hash toy_libs (str (b_password ann_body))) \<le> 255
   \<and> sql_users_by_email empty_db (str (b_email ann_body)) = []
   \<and> su_interleave toy_libs (empty_db, [su_accept 7 ann_signup, su_accept 8 ann_signup]) [0, 1]
      = (empty_db, [\<lparr>st_now = 7, st_body = ann_body, st_pc = SU_Hash\<rparr>,
                    \<lparr>st_now = 8, st_body = ann_body, st_pc = SU_Hash\<rparr>])
   \<and> su_interleave toy_libs (empty_db, [su_accept 7 ann_signup, su_accept 8 ann_signup])
        [0, 1, 0, 1, 0, 1]
      = (empty_db\<lparr>users := [\<lparr>u_id = 1, u_email = ''ann@example.org'',
                               u_password_hash = ''$2b$10$1terces'', u_name = ''Ann'',
                               u_created_at = 7, u_updated_at = 7, u_last_login = None,
                               u_is_active = Some True\<rparr>],
                   next_uuid := 2\<rparr>,
         [\<lparr>st_now = 7, st_body = ann_body,
           st_pc = SU_Done (reply 201 (JObj [(''success'', JBool True),
                     (''user'', JObj [(''id'', JNum 1), (''name'', JStr ''Ann''),
                                      (''email'', JStr ''ann@example.org''),
                                      (''createdAt'', JNum 7)]),
                     (''token'', JStr ''jwt:ann@example.org'')]))\<rparr>,
          \<lparr>st_now = 8, st_body = ann_body,
           st_pc = SU_Done (reply 500 (err ''Failed to create user: database error''))\<rparr>])"
  by (simp add: ann_body_def no_body_def falsy_def sql_users_by_email_def empty_db_def handle_def
        signup_def sql_insert_user_def store_varchar_def failure_def toy_libs_def list_all_iff
        ann_signup_def su_accept_def su_step_def reply_def err_def user_json_def Let_def)

text \<open>
  C7, amended. A signup whose email is already in the users table is answered 400 with
  a JSON error and the database is unchanged. A signup with non-empty name and email, a
  password of at least 6 characters, an email that is not in the table, and name, email
  and hash that fit their \<open>VARCHAR(255)\<close> columns, served with no statement of another
  request between its \<open>SELECT\<close> and its \<open>INSERT\<close>, appends one user row, whose password
  hash is the bcrypt hash of the password, and is answered 201 with the user and a
  token signed for the new user's id and email. Served that way means: the three awaited
  statements of the signup task run in a row, whatever other signup tasks are suspended
  meanwhile; they then change the database and answer as the handler does, and leave
  the other tasks untouched.
\<close>

theorem signup_duplicate_rejected_else_created:
  assumes "rq_route req = AuthSignup"
  shows "((\<exists>u \<in> set (users d). Some (u_email u) = b_email (rq_body req)) \<longrightarrow>
            fst (handle L now d req) = d
            \<and> (\<exists>msg. snd (handle L now d req) = reply 400 (err msg)))
       \<and> (\<forall>name email password.
            b_name (rq_body req) = Some name \<and> b_email (rq_body req) = Some email
            \<and> b_password (rq_body req) = Some password
            \<and> name \<noteq> [] \<and> email \<noteq> [] \<and> 6 \<le> length password
            \<and> (\<forall>u \<in> set (users d). u_email u \<noteq> email)
            \<and> length name \<le> 255 \<and> length email \<le> 255 \<and> length (bcrypt_hash L password) \<le> 255 \<longrightarrow>
            handle L now d req =
              (d\<lparr>users := users d @
                    [\<lparr>u_id = next_uuid d, u_email = email, u_password_hash = bcrypt_hash L password,
                      u_name = name, u_created_at = now, u_updated_at = now, u_last_login = None,
                      u_is_active = Some True\<rparr>],
                  next_uuid := Suc (next_uuid d)\<rparr>,
               reply 201 (JObj [(''success'', JBool True),
                   (''user'', JObj [(''id'', JNum (int (next_uuid d))), (''name'', JStr name),
                                    (''email'', JStr email), (''createdAt'', JNum (int now))]),
                   (''token'', JStr (jwt_sign L (next_uuid d, email) now))])))
       \<and> (\<forall>ts k. k < length ts \<and> ts ! k = su_accept now req \<longrightarrow>
            su_interleave L (d, ts) [k, k, k]
            = (fst (handle L now d req),
               ts[k := \<lparr>st_now = now, st_body = rq_body req,
                        st_pc = SU_Done (snd (handle L now d req))\<rparr>]))"
proof (intro conjI impI allI)
  assume "\<exists>u \<in> set (users d). Some (u_email u) = b_email (rq_body req)"
  then obtain u where "u \<in> set (users d)" "b_email (rq_body req) = Some (u_email u)"
    by metis
  then have "sql_users_by_email d (str (b_email (rq_body req))) \<noteq> []"
    by (auto simp: sql_users_by_email_def filter_empty_conv)
  then show "fst (handle L now d req) = d" "\<exists>msg. snd (handle L now d req) = reply 400 (err msg)"
    using assms by (auto simp: handle_def signup_def)
next
  fix name email password
  assume h: "b_name (rq_body req) = Some name \<and> b_email (rq_body req) = Some email
            \<and> b_password (rq_body req) = Some password
            \<and> name \<noteq> [] \<and> email \<noteq> [] \<and> 6 \<le> length password
            \<and> (\<forall>u \<in> set (users d). u_email u \<noteq> email)
            \<and> length name \<le> 255 \<and> length email \<le> 255 \<and> length (bcrypt_hash L password) \<le> 255"
  then have "sql_users_by_email d email = []" "\<not> list_ex (\<lambda>u. u_email u = email) (users d)"
    by (auto simp: sql_users_by_email_def filter_empty_conv list_ex_iff)
  with h assms show "handle L now d req =
              (d\<lparr>users := users d @
                    [\<lparr>u_id = next_uuid d, u_email = email, u_password_hash = bcrypt_hash L password,
                      u_name = name, u_created_at = now, u_updated_at = now, u_last_login = None,
                      u_is_active = Some True\<rparr>],
                  next_uuid := Suc (next_uuid d)\<rparr>,
               reply 201 (JObj [(''success'', JBool True),
                   (''user'', JObj [(''id'', JNum (int (next_uuid d))), (''name'', JStr name),
                                    (''email'', JStr email), (''createdAt'', JNum (int now))]),
                   (''token'', JStr (jwt_sign L (next_uuid d, email) now))]))"
    by (auto simp: handle_def signup_def falsy_def sql_insert_user_def store_varchar_def user_json_def
          Let_def)
next
  fix ts k
  assume "k < length ts \<and> ts ! k = su_accept now req"
  with su_alone_is_handler [OF assms, of k ts now L d]
  show "su_interleave L (d, ts) [k, k, k]
        = (fst (handle L now d req),
           ts[k := \<lparr>st_now = now, st_body = rq_body req,
                    st_pc = SU_Done (snd (handle L now d req))\<rparr>])"
    by (simp add: su_accept_def)
qed

theorem signup_duplicate_rejected_else_created_witness:
  "(\<exists>u \<in> set (users demo_db). Some (u_email u) = b_email ann_body)
   \<and> handle toy_libs 20 demo_db \<lparr>rq_route = AuthSignup, rq_authorization = None, rq_body = ann_body\<rparr>
      = (demo_db, reply 400 (err ''User with this email already exists''))
   \<and> length (bcrypt_hash toy_libs ''secret1'') \<le> 255
   \<and> map u_password_hash (users (fst (handle toy_libs 7 empty_db
         \<lparr>rq_route = AuthSignup, rq_authorization = None, rq_body = ann_body\<rparr>)))
      = [''$2b$10$1terces'']
   \<and> r_status (snd (handle toy_libs 7 empty_db
         \<lparr>rq_route = AuthSignup, rq_authorization = None, rq_body = ann_body\<rparr>)) = 201
   \<and> su_interleave toy_libs (empty_db, [su_accept 7 ann_signup, su_accept 8 ann_signup]) [0, 0, 0]
      = (empty_db\<lparr>users := [\<lparr>u_id = 1, u_email = ''ann@example.org'',
                               u_password_hash = ''$2b$10$1terces'', u_name = ''Ann'',
                               u_created_at = 7, u_updated_at = 7, u_last_login = None,
                               u_is_active = Some True\<rparr>],
                   next_uuid := 2\<rparr>,
         [\<lparr>st_now = 7, st_body = ann_body,
           st_pc = SU_Done (reply 201 (JObj [(''success'', JBool True),
                     (''user'', JObj [(''id'', JNum 1), (''name'', JStr ''Ann''),
                                      (''email'', JStr ''ann@example.org''),
                                      (''createdAt'', JNum 7)]),
                     (''token'', JStr ''jwt:ann@example.org'')]))\<rparr>,
          \<lparr>st_now = 8, st_body = ann_body, st_pc = SU_Select\<rparr>])"
proof -
  let ?req = "\<lparr>rq_route = AuthSignup, rq_authorization = None, rq_body = ann_body\<rparr>"
  have r: "rq_route ?req = AuthSignup" by simp
  have dup: "\<exists>u \<in> set (users demo_db). Some (u_email u) = b_email (rq_body ?req)"
    by (simp add: demo_db_def ann_body_def no_body_def)
  from signup_duplicate_rejected_else_created [OF r, of demo_db toy_libs 20] dup
  have 1: "fst (handle toy_libs 20 demo_db ?req) = demo_db"
    and 2: "\<exists>msg. snd (handle toy_libs 20 demo_db ?req) = reply 400 (err msg)"
    by blast+
  have 3: "snd (handle toy_libs 20 demo_db ?req) = reply 400 (err ''User with this email already exists'')"
    using 2 by (simp add: handle_def signup_def ann_body_def no_body_def falsy_def
                  sql_users_by_email_def demo_db_def)
  have new: "b_name (rq_body ?req) = Some ''Ann'' \<and> b_email (rq_body ?req) = Some ''ann@example.org''
      \<and> b_password (rq_body ?req) = Some ''secret1''
      \<and> ''Ann'' \<noteq> [] \<and> ''ann@example.org'' \<noteq> [] \<and> 6 \<le> length ''secret1''
      \<and> (\<forall>u \<in> set (users empty_db). u_email u \<noteq> ''ann@example.org'')
      \<and> length ''Ann'' \<le> 255 \<and> length ''ann@example.org'' \<le> 255
      \<and> length (bcrypt_hash toy_libs ''secret1'') \<le> 255"
    by (simp add: ann_body_def no_body_def empty_db_def toy_libs_def)
  from signup_duplicate_rejected_else_created [OF r, of empty_db toy_libs 7] new
  have 4: "handle toy_libs 7 empty_db ?req =
      (empty_db\<lparr>users := users empty_db @
           [\<lparr>u_id = next_uuid empty_db, u_email = ''ann@example.org'',
             u_password_hash = bcrypt_hash toy_libs ''secret1'',
             u_name = ''Ann'', u_created_at = 7, u_updated_at = 7, u_last_login = None,
             u_is_active = Some True\<rparr>],
         next_uuid := Suc (next_uuid empty_db)\<rparr>,
       reply 201 (JObj [(''success'', JBool True),
           (''user'', JObj [(''id'', JNum (int (next_uuid empty_db))), (''name'', JStr ''Ann''),
                            (''email'', JStr ''ann@example.org''), (''createdAt'', JNum (int 7))]),
           (''token'', JStr (jwt_sign toy_libs (next_uuid empty_db, ''ann@example.org'') 7))]))"
    by blast
  have 5: "length (bcrypt_hash toy_libs ''secret1'') \<le> 255"
    by (simp add: toy_libs_def)
  have k: "0 < length [su_accept 7 ?req, su_accept 8 ?req]
           \<and> [su_accept 7 ?req, su_accept 8 ?req] ! 0 = su_accept 7 ?req"
    by simp
  from signup_duplicate_rejected_else_created [OF r, of empty_db toy_libs 7] k
  have 6: "su_interleave toy_libs (empty_db, [su_accept 7 ?req, su_accept 8 ?req]) [0, 0, 0]
           = (fst (handle toy_libs 7 empty_db ?req),
              [su_accept 7 ?req, su_accept 8 ?req]
                [0 := \<lparr>st_now = 7, st_body = rq_body ?req,
                       st_pc = SU_Done (snd (handle toy_libs 7 empty_db ?req))\<rparr>])"
    by blast
  have 7: "su_accept 8 ?req = \<lparr>st_now = 8, st_body = ann_body, st_pc = SU_Select\<rparr>"
    by (simp add: su_accept_def ann_body_def no_body_def falsy_def)
  from dup 1 3 5 show ?thesis
    unfolding ann_signup_def 6 unfolding 4 7
    by (simp add: prod_eq_iff empty_db_def toy_libs_def reply_def)
qed

subsection \<open>Login\<close>





subsection \<open>message_order\<close>

lemma gapless_Nil: "gapless []"
  by (simp add: gapless_def)

lemma gapless_single [simp]: "gapless [1]"
  by (simp add: gapless_def)

lemma gapless_snoc: "gapless (xs @ [x]) \<longleftrightarrow> gapless xs \<and> x = int (length xs) + 1"
  by (auto simp: gapless_def)

lemma coalesce_max_snoc:
  "coalesce_max (xs @ [x]) = (if xs = [] then x else max (coalesce_max xs) x)"
  by (cases xs) (auto simp: coalesce_max_def max.commute)

lemma gapless_max: "gapless xs \<Longrightarrow> coalesce_max xs = int (length xs)"
proof (induction xs rule: rev_induct)
  case Nil
  then show ?case by (simp add: coalesce_max_def)
next
  case (snoc x xs)
  then show ?case by (auto simp: gapless_snoc coalesce_max_snoc)
qed

lemma orders_gapless_iff: "orders_gapless d \<longleftrightarrow> (\<forall>i. gapless (orders_of d i))"
proof
  assume a: "orders_gapless d"
  show "\<forall>i. gapless (orders_of d i)"
  proof
    fix i
    show "gapless (orders_of d i)"
    proof (cases "i \<in> set (map m_conversation_id (messages d))")
      case True
      with a show ?thesis by (auto simp: orders_gapless_def list_all_iff)
    next
      case False
      then have "orders_of d i = []"
        by (auto simp: orders_of_def filter_empty_conv)
      then show ?thesis by (simp add: gapless_Nil)
    qed
  qed
next
  assume "\<forall>i. gapless (orders_of d i)"
  then show "orders_gapless d" by (simp add: orders_gapless_def list_all_iff)
qed

lemma orders_of_insert:
  assumes "sql_insert_message d now i r c ord = Inr (d', row)"
  shows "orders_of d' j = (if j = i then orders_of d i @ [ord] else orders_of d j)"
    and "conversations d' = conversations d"
    and "messages d' = messages d @ [row]" and "m_conversation_id row = i" and "m_message_order row = ord"
    and "Some (m_content row) = c"
  using assms
  by (auto simp: sql_insert_message_def orders_of_def Let_def split: if_splits option.splits sum.splits)

lemma orders_of_touch [simp]: "orders_of (sql_touch_conversation d now i) j = orders_of d j"
  by (simp add: orders_of_def sql_touch_conversation_def)

lemma orders_of_first_title [simp]: "orders_of (sql_first_title d now i t) j = orders_of d j"
  by (simp add: orders_of_def sql_first_title_def)

lemma orders_of_delete:
  "orders_of (sql_delete_conversation d i) j = (if j = i then [] else orders_of d j)"
  by (auto simp: orders_of_def sql_delete_conversation_def filter_empty_conv intro!: arg_cong[where f="map _"] filter_cong)

lemma orders_of_cong: "messages d' = messages d \<Longrightarrow> orders_of d' j = orders_of d j"
  by (simp add: orders_of_def)

lemma post_message_gapless:
  assumes "\<forall>j. gapless (orders_of d j)"
  shows "gapless (orders_of (fst (post_message L now d user p b)) j)"
proof -
  have g: "\<And>k. gapless (orders_of d k)" using assms by blast
  show ?thesis
    unfolding post_message_def
    by (auto simp: g Let_def sql_next_order_def gapless_max gapless_snoc orders_of_insert
             split: option.splits list.splits sum.splits if_splits)
qed

lemma bulk_loop_gapless:
  assumes "\<forall>j. gapless (orders_of d j)" and "ord = int (length (orders_of d i))"
  shows "gapless (orders_of (fst (bulk_loop now i ms ord d acc)) j)"
  using assms
proof (induction ms arbitrary: ord d acc)
  case Nil
  then show ?case by simp
next
  case (Cons m ms)
  show ?case
  proof (cases m)
    case None
    with Cons.prems show ?thesis by simp
  next
    case (Some msg)
    show ?thesis
    proof (cases "sql_insert_message d now i (i_role msg) (i_content msg) (ord + 1)")
      case (Inl e)
      with Some Cons.prems show ?thesis by simp
    next
      case (Inr res)
      obtain d1 row where res: "res = (d1, row)" by (cases res)
      note ins = orders_of_insert(1)[OF Inr[unfolded res]]
      let ?d2 = "(if i_role msg = Some ''user'' \<and> ord + 1 = 1
             then sql_first_title d1 now i (titlePreview (str (i_content msg)))
             else d1)"
      have o2: "\<And>k. orders_of ?d2 k = orders_of d1 k" by simp
      have g2: "\<forall>k. gapless (orders_of ?d2 k)"
        using Cons.prems by (auto simp: o2 ins gapless_snoc)
      have l2: "ord + 1 = int (length (orders_of ?d2 i))"
        using Cons.prems by (simp add: o2 ins)
      from Cons.IH[OF g2 l2] show ?thesis
        using Some Inr res by simp
    qed
  qed
qed

lemma bulk_messages_gapless:
  assumes "\<forall>j. gapless (orders_of d j)"
  shows "gapless (orders_of (fst (bulk_messages L now d user p b)) j)"
proof -
  have g: "\<And>k. gapless (orders_of d k)" using assms by blast
  have m: "\<And>i. sql_max_order d i = int (length (orders_of d i))"
    by (simp add: sql_max_order_def gapless_max g)
  have bl: "\<And>i ms acc k. gapless (orders_of (fst (bulk_loop now i ms (sql_max_order d i) d acc)) k)"
    by (rule bulk_loop_gapless[OF assms m])
  show ?thesis
    unfolding bulk_messages_def
    apply (simp add: g split: option.splits list.splits sum.splits prod.splits)
    using bl by (metis fst_conv)
qed


lemma messages_unchanged:
  "messages (fst (signup L now d b)) = messages d"
  "messages (fst (login L now d b)) = messages d"
  "messages (fst (create_conversation L now d user b)) = messages d"
  "messages (fst (update_conversation L now d user p b)) = messages d"
  "messages (fst (put_settings L now d user b)) = messages d"
  "messages (fst (get_conversation L d user p)) = messages d"
  "messages (fst (get_messages L d user p)) = messages d"
  "messages (fst (get_settings L d user)) = messages d"
  by (auto simp: signup_def login_def create_conversation_def update_conversation_def
        put_settings_def get_conversation_def get_messages_def get_settings_def
        sql_insert_user_def sql_touch_login_def sql_insert_conversation_def sql_set_title_def
        sql_upsert_settings_def Let_def
      split: option.splits list.splits sum.splits prod.splits if_splits)

lemma delete_gapless:
  assumes "\<forall>j. gapless (orders_of d j)"
  shows "gapless (orders_of (fst (delete_conversation L d user p)) j)"
  using assms
  by (auto simp: delete_conversation_def orders_of_delete gapless_Nil split: option.splits list.splits)

lemma handle_gapless:
  assumes "\<forall>j. gapless (orders_of d j)"
  shows "gapless (orders_of (fst (handle L now d req)) j)"
proof -
  have g: "\<And>k. gapless (orders_of d k)" using assms by blast
  show ?thesis
  proof (cases "authenticateToken L now req")
    case (Inl r)
    then show ?thesis
      by (cases "rq_route req")
         (simp_all add: handle_def protected_def g health_def orders_of_cong[OF messages_unchanged(1)]
            orders_of_cong[OF messages_unchanged(2)])
  next
    case (Inr user)
    then show ?thesis
      by (cases "rq_route req")
         (simp_all add: handle_def protected_def g health_def verify_def get_conversations_def
            orders_of_cong[OF messages_unchanged(1)] orders_of_cong[OF messages_unchanged(2)]
            orders_of_cong[OF messages_unchanged(3)] orders_of_cong[OF messages_unchanged(4)]
            orders_of_cong[OF messages_unchanged(5)] orders_of_cong[OF messages_unchanged(6)]
            orders_of_cong[OF messages_unchanged(7)] orders_of_cong[OF messages_unchanged(8)]
            post_message_gapless[OF assms] bulk_messages_gapless[OF assms] delete_gapless[OF assms])
  qed
qed

lemma handle_preserves: "orders_gapless d \<Longrightarrow> orders_gapless (fst (handle L now d req))"
  by (simp add: orders_gapless_iff handle_gapless)

lemma serve_preserves: "orders_gapless d \<Longrightarrow> orders_gapless (serve L d reqs)"
  by (induction reqs arbitrary: d) (auto simp: handle_preserves)

lemma empty_gapless: "orders_gapless empty_db"
  by (simp add: orders_gapless_def empty_db_def)

lemma bulk_loop_strip:
  "bulk_loop now i (map (map_option (\<lambda>m. m\<lparr>i_message_order := x\<rparr>)) ms) ord d acc
     = bulk_loop now i ms ord d acc"
proof (induction ms arbitrary: ord d acc)
  case Nil
  then show ?case by simp
next
  case (Cons m ms)
  then show ?case by (cases m) (auto split: sum.splits)
qed

lemma strip_fields [simp]:
  "b_name (strip_orders b) = b_name b" "b_email (strip_orders b) = b_email b"
  "b_password (strip_orders b) = b_password b" "b_title (strip_orders b) = b_title b"
  "b_role (strip_orders b) = b_role b" "b_content (strip_orders b) = b_content b"
  "b_preferredModel (strip_orders b) = b_preferredModel b"
  "b_useBuiltinKey (strip_orders b) = b_useBuiltinKey b"
  by (simp_all add: strip_orders_def)

lemma bulk_strip:
  "bulk_messages L now d user p (strip_orders b) = bulk_messages L now d user p b"
proof (cases "b_messages b")
  case None
  then show ?thesis by (simp add: bulk_messages_def strip_orders_def)
next
  case (Some ms)
  show ?thesis
  proof (cases ms)
    case Nil
    with Some show ?thesis by (simp add: bulk_messages_def strip_orders_def)
  next
    case (Cons m rest)
    have "bulk_loop now i (map_option (\<lambda>m. m\<lparr>i_message_order := None\<rparr>) m
                # map (map_option (\<lambda>m. m\<lparr>i_message_order := None\<rparr>)) rest) ord d acc
          = bulk_loop now i (m # rest) ord d acc" for i ord acc
      using bulk_loop_strip[of now i None "m # rest" ord d acc] by simp
    with Some Cons show ?thesis
      by (simp add: bulk_messages_def strip_orders_def split: option.splits list.splits)
  qed
qed

lemma handle_strip:
  "handle L now d (req\<lparr>rq_body := strip_orders (rq_body req)\<rparr>) = handle L now d req"
proof -
  have a: "authenticateToken L now (req\<lparr>rq_body := strip_orders (rq_body req)\<rparr>) = authenticateToken L now req"
    by (simp add: authenticateToken_def)
  show ?thesis
    by (cases "rq_route req")
       (simp_all add: handle_def protected_def a bulk_strip signup_def login_def
          create_conversation_def update_conversation_def post_message_def put_settings_def
          cong: option.case_cong sum.case_cong list.case_cong prod.case_cong if_cong)
qed


lemma auth_status: "authenticateToken L now req = Inl r \<Longrightarrow> r_status r = 401 \<or> r_status r = 403"
  by (auto simp: authenticateToken_def reply_def split: option.splits)

lemma post_message_success:
  assumes "r_status (snd (post_message L now d user p b)) = 201"
  shows "\<exists>i d1 row. p = Some i
          \<and> sql_insert_message d now i (b_role b) (b_content b) (coalesce_max (orders_of d i) + 1)
              = Inr (d1, row)
          \<and> messages (fst (post_message L now d user p b)) = messages d1"
  using assms unfolding post_message_def
  by (auto simp: reply_def failure_def Let_def sql_next_order_def
        sql_touch_conversation_def sql_first_title_def
      split: option.splits list.splits sum.splits if_splits)

lemma post_assigns_next:
  assumes "rq_route req = MessagesPost p" and "r_status (snd (handle L now d req)) = 201"
  shows "\<exists>i row. p = Some i \<and> messages (fst (handle L now d req)) = messages d @ [row]
            \<and> m_conversation_id row = i
            \<and> m_message_order row = coalesce_max (orders_of d i) + 1"
proof (cases "authenticateToken L now req")
  case (Inl r)
  with assms auth_status[OF Inl] show ?thesis by (auto simp: handle_def protected_def)
next
  case (Inr user)
  with assms have s: "r_status (snd (post_message L now d user p (rq_body req))) = 201"
    and h: "handle L now d req = post_message L now d user p (rq_body req)"
    by (simp_all add: handle_def protected_def)
  from post_message_success[OF s] obtain i d1 row where
    p: "p = Some i"
    and ins: "sql_insert_message d now i (b_role (rq_body req)) (b_content (rq_body req))
                (coalesce_max (orders_of d i) + 1) = Inr (d1, row)"
    and m: "messages (fst (post_message L now d user p (rq_body req))) = messages d1"
    by blast
  from orders_of_insert(3,4,5)[OF ins] p m show ?thesis unfolding h by simp
qed

lemma orders_cons:
  "map (\<lambda>k. a + int k) [1..<Suc (Suc n)] = (a + 1) # map (\<lambda>k. a + 1 + int k) [1..<Suc n]"
  by (induction n) simp_all

lemma bulk_loop_rows:
  assumes "bulk_loop now i ms ord d acc = (d', Inr out)"
  shows "\<exists>rows. messages d' = messages d @ rows
          \<and> map m_conversation_id rows = replicate (length ms) i
          \<and> map m_message_order rows = map (\<lambda>k. ord + int k) [1..<Suc (length ms)]
          \<and> map (\<lambda>r. Some (Some (m_content r))) rows = map (map_option i_content) ms"
  using assms
proof (induction ms arbitrary: ord d acc)
  case Nil
  then show ?case by simp
next
  case (Cons m ms)
  from Cons.prems obtain msg where m: "m = Some msg" by (cases m) auto
  from Cons.prems m obtain d1 row where
    ins: "sql_insert_message d now i (i_role msg) (i_content msg) (ord + 1) = Inr (d1, row)"
    by (auto split: sum.splits)
  let ?d2 = "(if i_role msg = Some ''user'' \<and> ord + 1 = 1
             then sql_first_title d1 now i (titlePreview (str (i_content msg)))
             else d1)"
  have m2: "messages ?d2 = messages d @ [row]"
    using orders_of_insert(3)[OF ins] by (simp add: sql_first_title_def)
  from Cons.prems m ins
  have "bulk_loop now i ms (ord + 1) ?d2 (acc @ [message_json row False]) = (d', Inr out)"
    by simp
  from Cons.IH[OF this] obtain rows where
    r: "messages d' = messages ?d2 @ rows"
       "map m_conversation_id rows = replicate (length ms) i"
       "map m_message_order rows = map (\<lambda>k. ord + 1 + int k) [1..<Suc (length ms)]"
       "map (\<lambda>r. Some (Some (m_content r))) rows = map (map_option i_content) ms"
    by blast
  have "messages d' = messages d @ (row # rows)"
    using r(1) m2 by simp
  moreover have "map m_conversation_id (row # rows) = replicate (length (m # ms)) i"
    using r(2) orders_of_insert(4)[OF ins] by simp
  moreover have "map m_message_order (row # rows) = map (\<lambda>k. ord + int k) [1..<Suc (length (m # ms))]"
    using r(3) orders_of_insert(5)[OF ins]
    by (simp only: length_Cons orders_cons list.map)
  moreover have "map (\<lambda>r. Some (Some (m_content r))) (row # rows) = map (map_option i_content) (m # ms)"
    using r(4) orders_of_insert(6)[OF ins] m by simp
  ultimately show ?case by blast
qed

lemma bulk_assigns:
  assumes "rq_route req = MessagesBulk p" and "r_status (snd (handle L now d req)) = 201"
  shows "\<exists>i ms rows. p = Some i \<and> b_messages (rq_body req) = Some ms
          \<and> messages (fst (handle L now d req)) = messages d @ rows
          \<and> map m_conversation_id rows = replicate (length ms) i
          \<and> map m_message_order rows
              = map (\<lambda>k. coalesce_max (orders_of d i) + int k) [1..<Suc (length ms)]
          \<and> map (\<lambda>r. Some (Some (m_content r))) rows = map (map_option i_content) ms"
proof (cases "authenticateToken L now req")
  case (Inl r)
  with assms auth_status[OF Inl] show ?thesis by (auto simp: handle_def protected_def)
next
  case (Inr user)
  with assms have s: "r_status (snd (bulk_messages L now d user p (rq_body req))) = 201"
    and h: "handle L now d req = bulk_messages L now d user p (rq_body req)"
    by (simp_all add: handle_def protected_def)
  from s obtain i ms d' out where
    p: "p = Some i" and ms: "b_messages (rq_body req) = Some ms"
    and bl: "bulk_loop now i ms (sql_max_order d i) d [] = (d', Inr out)"
    and res: "bulk_messages L now d user p (rq_body req)
               = (sql_touch_conversation d' now i,
                  reply 201 (JObj [(''success'', JBool True), (''messages'', JArr out)]))"
    unfolding bulk_messages_def
    by (auto simp: reply_def failure_def split: option.splits list.splits sum.splits prod.splits)
  from bulk_loop_rows[OF bl] obtain rows where
    "messages d' = messages d @ rows"
    "map m_conversation_id rows = replicate (length ms) i"
    "map m_message_order rows = map (\<lambda>k. sql_max_order d i + int k) [1..<Suc (length ms)]"
    "map (\<lambda>r. Some (Some (m_content r))) rows = map (map_option i_content) ms"
    by blast
  then show ?thesis
    unfolding h res using p ms
    by (auto simp: sql_touch_conversation_def sql_max_order_def)
qed


lemma ann_request_sel:
  "rq_body (ann_request r b) = b" "rq_route (ann_request r b) = r"
  by (simp_all add: ann_request_def)

text \<open>
  The step-by-step handler is the handler: one task run alone through its five
  statements leaves the database and the answer of \<open>handle\<close>.
\<close>

lemma pm_alone_is_handler:
  assumes "rq_route req = MessagesPost p"
  shows "(case interleave L (d, [pm_accept L now p req]) [0, 0, 0, 0, 0] of
            (d', ts) \<Rightarrow> (d', map pt_pc ts)) = (fst (handle L now d req), [PM_Done (snd (handle L now d req))])"
proof (cases "authenticateToken L now req")
  case (Inl r)
  with assms show ?thesis
    by (simp add: handle_def protected_def pm_accept_def pm_step_def)
next
  case (Inr user)
  with assms have h: "handle L now d req = post_message L now d user p (rq_body req)"
    by (simp add: handle_def protected_def)
  show ?thesis unfolding h
    using Inr
    by (auto simp: post_message_def pm_accept_def pm_step_def Let_def
          split: option.splits list.splits sum.splits)
qed

text \<open>
  C1, as the claim states it, fails when two requests to the same conversation overlap.
  Ann posts twice to conversation 3, which holds messages 1 and 2; each handler reads
  \<open>MAX(message_order) + 1 = 3\<close> before the other has inserted, and both insert 3.
\<close>

theorem interleaved_posts_repeat_order_counterexample:
  "orders_gapless demo_db
   \<and> orders_of (fst (interleave toy_libs
        (demo_db, [pm_accept toy_libs 20 (Some 3) (ann_request (MessagesPost (Some 3)) hello_body),
                   pm_accept toy_libs 21 (Some 3) (ann_request (MessagesPost (Some 3)) hello_body)])
        [0, 1, 0, 1, 0, 1, 0, 1])) 3 = [1, 2, 3, 3]
   \<and> \<not> orders_gapless (fst (interleave toy_libs
        (demo_db, [pm_accept toy_libs 20 (Some 3) (ann_request (MessagesPost (Some 3)) hello_body),
                   pm_accept toy_libs 21 (Some 3) (ann_request (MessagesPost (Some 3)) hello_body)])
        [0, 1, 0, 1, 0, 1, 0, 1]))"
proof -
  have g: "orders_gapless demo_db"
    by (simp add: orders_gapless_def gapless_def orders_of_def demo_db_def)
  have o: "orders_of (fst (interleave toy_libs
        (demo_db, [pm_accept toy_libs 20 (Some 3) (ann_request (MessagesPost (Some 3)) hello_body),
                   pm_accept toy_libs 21 (Some 3) (ann_request (MessagesPost (Some 3)) hello_body)])
        [0, 1, 0, 1, 0, 1, 0, 1])) 3 = [1, 2, 3, 3]"
    by (simp add: ann_request_sel pm_accept_def pm_step_def ann_authenticated hello_body_def
          no_body_def falsy_def demo_db_def sql_conv_check_def sql_next_order_def orders_of_def
          coalesce_max_def INT_MAX_def INT_MIN_def sql_insert_message_def store_varchar_def
          sql_touch_conversation_def sql_first_title_def Let_def)
  have "\<not> gapless [1, 2, 3, 3]" by (simp add: gapless_def)
  with o have "\<not> (\<forall>i. gapless (orders_of (fst (interleave toy_libs
        (demo_db, [pm_accept toy_libs 20 (Some 3) (ann_request (MessagesPost (Some 3)) hello_body),
                   pm_accept toy_libs 21 (Some 3) (ann_request (MessagesPost (Some 3)) hello_body)])
        [0, 1, 0, 1, 0, 1, 0, 1])) i))"
    by metis
  with g o show ?thesis by (simp only: orders_gapless_iff simp_thms)
qed

text \<open>
  C1, amended. When the server handles requests one at a time: in every database
  reachable from the empty one, and after any request on a database that has the
  property, the \<open>message_order\<close> values of each conversation are 1, 2, 3, ... in storage
  order. A \<open>message_order\<close> in the request body, or in an element of a bulk array, has no
  effect on the outcome. A successful single post appends one row whose order is the
  conversation's maximum plus one; a successful bulk post appends one row per array
  element, in array order, with orders maximum + 1, maximum + 2, ...
\<close>

theorem message_order_gapless_when_sequential:
  "orders_gapless (serve L empty_db reqs)
   \<and> (orders_gapless d \<longrightarrow> orders_gapless (fst (handle L now d req)))
   \<and> handle L now d (req\<lparr>rq_body := strip_orders (rq_body req)\<rparr>) = handle L now d req
   \<and> (\<forall>p. rq_route req = MessagesPost p \<and> r_status (snd (handle L now d req)) = 201 \<longrightarrow>
         (\<exists>i row. p = Some i \<and> messages (fst (handle L now d req)) = messages d @ [row]
            \<and> m_conversation_id row = i
            \<and> m_message_order row = coalesce_max (orders_of d i) + 1))
   \<and> (\<forall>p. rq_route req = MessagesBulk p \<and> r_status (snd (handle L now d req)) = 201 \<longrightarrow>
         (\<exists>i ms rows. p = Some i \<and> b_messages (rq_body req) = Some ms
            \<and> messages (fst (handle L now d req)) = messages d @ rows
            \<and> map m_conversation_id rows = replicate (length ms) i
            \<and> map m_message_order rows
                = map (\<lambda>k. coalesce_max (orders_of d i) + int k) [1..<Suc (length ms)]
            \<and> map (\<lambda>r. Some (Some (m_content r))) rows = map (map_option i_content) ms))"
proof (intro conjI allI impI)
  show "orders_gapless (serve L empty_db reqs)"
    by (rule serve_preserves[OF empty_gapless])
  show "orders_gapless (fst (handle L now d req))" if "orders_gapless d"
    using that by (rule handle_preserves)
  show "handle L now d (req\<lparr>rq_body := strip_orders (rq_body req)\<rparr>) = handle L now d req"
    by (rule handle_strip)
  show "\<exists>i row. p = Some i \<and> messages (fst (handle L now d req)) = messages d @ [row]
            \<and> m_conversation_id row = i
            \<and> m_message_order row = coalesce_max (orders_of d i) + 1"
    if "rq_route req = MessagesPost p \<and> r_status (snd (handle L now d req)) = 201" for p
    using that by (intro post_assigns_next) simp_all
  show "\<exists>i ms rows. p = Some i \<and> b_messages (rq_body req) = Some ms
            \<and> messages (fst (handle L now d req)) = messages d @ rows
            \<and> map m_conversation_id rows = replicate (length ms) i
            \<and> map m_message_order rows
                = map (\<lambda>k. coalesce_max (orders_of d i) + int k) [1..<Suc (length ms)]
            \<and> map (\<lambda>r. Some (Some (m_content r))) rows = map (map_option i_content) ms"
    if "rq_route req = MessagesBulk p \<and> r_status (snd (handle L now d req)) = 201" for p
    using that by (intro bulk_assigns) simp_all
qed

theorem message_order_gapless_when_sequential_witness:
  "orders_gapless demo_db
   \<and> r_status (snd (handle toy_libs 20 demo_db (ann_request (MessagesPost (Some 3)) hello_body))) = 201
   \<and> orders_gapless (fst (handle toy_libs 20 demo_db (ann_request (MessagesPost (Some 3)) hello_body)))
   \<and> orders_of (fst (handle toy_libs 20 demo_db (ann_request (MessagesPost (Some 3)) hello_body))) 3
       = [1, 2, 3]
   \<and> r_status (snd (handle toy_libs 20 demo_db (ann_request (MessagesBulk (Some 3)) bulk_body))) = 201
   \<and> orders_of (fst (handle toy_libs 20 demo_db (ann_request (MessagesBulk (Some 3)) bulk_body))) 3
       = [1, 2, 3, 4]"
proof -
  have g: "orders_gapless demo_db"
    by (simp add: orders_gapless_def gapless_def orders_of_def demo_db_def)
  have s1: "r_status (snd (handle toy_libs 20 demo_db (ann_request (MessagesPost (Some 3)) hello_body))) = 201"
    by (simp add: handle_def protected_def ann_authenticated ann_request_sel
          post_message_def bulk_messages_def hello_body_def bulk_body_def no_body_def falsy_def
          demo_db_def sql_conv_check_def sql_next_order_def sql_max_order_def orders_of_def
          coalesce_max_def INT_MAX_def INT_MIN_def sql_insert_message_def store_varchar_def
          sql_touch_conversation_def sql_first_title_def Let_def reply_def)
  have s2: "r_status (snd (handle toy_libs 20 demo_db (ann_request (MessagesBulk (Some 3)) bulk_body))) = 201"
    by (simp add: handle_def protected_def ann_authenticated ann_request_sel
          post_message_def bulk_messages_def hello_body_def bulk_body_def no_body_def falsy_def
          demo_db_def sql_conv_check_def sql_next_order_def sql_max_order_def orders_of_def
          coalesce_max_def INT_MAX_def INT_MIN_def sql_insert_message_def store_varchar_def
          sql_touch_conversation_def sql_first_title_def Let_def reply_def)
  note t1 = message_order_gapless_when_sequential [of toy_libs "[]" demo_db 20 "ann_request (MessagesPost (Some 3)) hello_body"]
  note t2 = message_order_gapless_when_sequential [of toy_libs "[]" demo_db 20 "ann_request (MessagesBulk (Some 3)) bulk_body"]
  from t1 g have g1: "orders_gapless (fst (handle toy_libs 20 demo_db (ann_request (MessagesPost (Some 3)) hello_body)))"
    by blast
  from t1 s1 obtain row where
    "messages (fst (handle toy_libs 20 demo_db (ann_request (MessagesPost (Some 3)) hello_body)))
       = messages demo_db @ [row]"
    "m_conversation_id row = 3" "m_message_order row = coalesce_max (orders_of demo_db 3) + 1"
    by (auto simp: ann_request_sel)
  then have o1: "orders_of (fst (handle toy_libs 20 demo_db (ann_request (MessagesPost (Some 3)) hello_body))) 3
       = [1, 2, 3]"
    by (simp add: orders_of_def coalesce_max_def demo_db_def)
  from t2 s2 obtain ms rows where
    bm: "b_messages (rq_body (ann_request (MessagesBulk (Some 3)) bulk_body)) = Some ms"
    and mr: "messages (fst (handle toy_libs 20 demo_db (ann_request (MessagesBulk (Some 3)) bulk_body)))
       = messages demo_db @ rows"
    and cr: "map m_conversation_id rows = replicate (length ms) 3"
    and orr: "map m_message_order rows
               = map (\<lambda>k. coalesce_max (orders_of demo_db 3) + int k) [1..<Suc (length ms)]"
    by (auto simp: ann_request_sel)
  from bm have l: "length ms = 2"
    by (auto simp: ann_request_sel bulk_body_def no_body_def)
  have "set (map m_conversation_id rows) \<subseteq> {3}"
    unfolding cr by (auto simp: set_replicate_conv_if)
  then have "filter (\<lambda>m. m_conversation_id m = 3) rows = rows"
    by (auto simp: filter_id_conv)
  with mr orr l
  have o2: "orders_of (fst (handle toy_libs 20 demo_db (ann_request (MessagesBulk (Some 3)) bulk_body))) 3
       = [1, 2, 3, 4]"
    by (simp add: orders_of_def coalesce_max_def demo_db_def upt_conv_Cons)
  from g s1 g1 o1 s2 o2 show ?thesis by blast
qed

section \<open>Verified properties of the client\<close>

subsection \<open>What the generation code leaves alone\<close>

lemma same_batch_refl [simp]: "same_batch s s"
  by (simp add: same_batch_def)

lemma same_batch_trans: "same_batch s s' \<Longrightarrow> same_batch s' s'' \<Longrightarrow> same_batch s s''"
  by (simp add: same_batch_def)

lemma getUserApiKeys_frame: "same_batch s (snd (getUserApiKeys s))"
  by (simp add: getUserApiKeys_def same_batch_def saveUserApiKeys_def Let_def split: option.splits)

lemma getActiveApiKey_frame: "same_batch s (snd (getActiveApiKey s))"
proof -
  obtain keys s1 where g: "getUserApiKeys s = (keys, s1)" by (cases "getUserApiKeys s")
  with getUserApiKeys_frame[of s] have "same_batch s s1" by simp
  then show ?thesis
    by (auto simp: getActiveApiKey_def g same_batch_def split: option.splits)
qed

lemma loop_head_frame: "same_batch s (state_after (loop_head j s))"
  by (simp add: loop_head_def state_after_def same_batch_def split: list.splits)

lemma enter_loop_frame: "same_batch s (state_after (enter_loop cs j s))"
  unfolding enter_loop_def
  by (rule same_batch_trans[OF _ loop_head_frame]) (simp add: same_batch_def)

lemma tryGenerateWithKey_frame: "same_batch s (state_after (tryGenerateWithKey k j s))"
  using enter_loop_frame
  by (simp add: tryGenerateWithKey_def Let_def) (simp add: state_after_def same_batch_def)

lemma after_models_frame: "same_batch s (state_after (after_models a j s))"
  by (simp add: after_models_def enter_loop_frame)

lemma try_other_keys_frame: "same_batch s (state_of (try_other_keys ks j s))"
proof (induction ks arbitrary: s)
  case Nil
  show ?case
    using tryGenerateWithKey_frame[of s DEFAULT_BUILTIN_API_KEY "j\<lparr>j_phase := Builtin\<rparr>"]
    by (auto simp: state_of_def state_after_def split: sum.splits)
next
  case (Cons k ks)
  show ?case
  proof (cases "k \<noteq> j_apiKey j")
    case False
    then show ?thesis using Cons.IH by simp
  next
    case True
    show ?thesis
    proof (cases "tryGenerateWithKey k (j\<lparr>j_phase := Alternatives ks\<rparr>) s")
      case (Inl a)
      obtain e s' where a: "a = (e, s')" by (cases a)
      from tryGenerateWithKey_frame[of s k "j\<lparr>j_phase := Alternatives ks\<rparr>"] Inl a
      have "same_batch s s'" by (simp add: state_after_def)
      from same_batch_trans[OF this Cons.IH[of s']] show ?thesis
        using True Inl a by simp
    next
      case (Inr b)
      obtain j' s' where b: "b = (j', s')" by (cases b)
      from tryGenerateWithKey_frame[of s k "j\<lparr>j_phase := Alternatives ks\<rparr>"] Inr b
      show ?thesis using True by (simp add: state_after_def state_of_def)
    qed
  qed
qed

lemma key_failed_frame: "same_batch s (state_of (key_failed m j s))"
proof (cases "j_phase j")
  case Primary
  obtain keys s1 where g: "getUserApiKeys s = (keys, s1)" by (cases "getUserApiKeys s")
  with getUserApiKeys_frame[of s] have "same_batch s s1" by simp
  from same_batch_trans[OF this try_other_keys_frame] show ?thesis
    by (simp add: key_failed_def Primary g)
next
  case (Alternatives rest)
  then show ?thesis by (simp add: key_failed_def try_other_keys_frame)
next
  case Builtin
  then show ?thesis by (simp add: key_failed_def state_of_def)
qed

lemma settle_frame:
  assumes "same_batch s (state_after r)"
  shows "same_batch s (state_of (settle r j))"
proof (cases r)
  case (Inl a)
  obtain m s' where "a = (m, s')" by (cases a)
  with Inl assms same_batch_trans[OF _ key_failed_frame, of s s' m j] show ?thesis
    by (simp add: settle_def state_after_def)
next
  case (Inr b)
  obtain j' s' where "b = (j', s')" by (cases b)
  with Inr assms show ?thesis by (simp add: settle_def state_after_def state_of_def)
qed

lemma resume_models_frame: "same_batch s (state_of (resume_models lm j s))"
  by (simp add: resume_models_def settle_frame after_models_frame)

lemma resolved_frame [simp]:
  "same_batch s (state_of (Resolved r (s\<lparr>conversationHistory := h\<rparr>)))"
  by (simp add: state_of_def same_batch_def)

lemma resume_fetch_frame: "same_batch s (state_of (resume_fetch out j s))"
proof (cases "j_configs j")
  case Nil
  then show ?thesis by (simp add: resume_fetch_def settle_frame loop_head_frame)
next
  case (Cons cfg rest)
  show ?thesis
    unfolding resume_fetch_def Cons
    by (auto simp: settle_frame loop_head_frame key_failed_frame split: attempt.splits)
qed

lemma generateAIResponse_frame:
  "same_batch (s\<lparr>gen_calls := gen_calls s @ [(c, ms)]\<rparr>) (state_of (generateAIResponse c ms s))"
proof -
  let ?s0 = "s\<lparr>gen_calls := gen_calls s @ [(c, ms)]\<rparr>"
  let ?s1 = "?s0\<lparr>conversationHistory := conversationHistory ?s0 @
                    (if ms \<noteq> [] then map (\<lambda>msg. (''user'', msg)) ms else [(''user'', c)])\<rparr>"
  obtain active s2 where g: "getActiveApiKey ?s1 = (active, s2)" by (cases "getActiveApiKey ?s1")
  have a: "same_batch ?s0 ?s1" by (simp add: same_batch_def)
  from getActiveApiKey_frame[of ?s1] g have b: "same_batch ?s1 s2" by simp
  let ?k1 = "(if falsy active then ls_gemini_api_key s2 else active)"
  let ?s3 = "(if falsy ?k1 \<and> DEFAULT_BUILTIN_API_KEY \<noteq> [] \<and> ls_use_builtin_key s2 = None
                       then s2\<lparr>ls_use_builtin_key := Some ''true''\<rparr> else s2)"
  have c: "same_batch s2 ?s3" by (simp add: same_batch_def)
  note abc = same_batch_trans[OF same_batch_trans[OF a b] c]
  show ?thesis
    unfolding generateAIResponse_def Let_def g prod.case
    using abc same_batch_trans[OF abc settle_frame[OF tryGenerateWithKey_frame]]
    by (auto simp: state_of_def)
qed

subsection \<open>Batching\<close>

text \<open>
  What \<open>trim\<close> does: it removes white space, and only white space, from both ends.
\<close>

lemma trim_parts:
  "\<exists>a b. s = a @ trim s @ b \<and> list_all is_space a \<and> list_all is_space b
         \<and> (trim s \<noteq> [] \<longrightarrow> \<not> is_space (hd (trim s)) \<and> \<not> is_space (last (trim s)))"
proof -
  let ?a = "takeWhile is_space s"
  let ?r = "dropWhile is_space s"
  let ?b = "rev (takeWhile is_space (rev ?r))"
  have 1: "s = ?a @ ?r" by simp
  have 2: "?r = trim s @ ?b"
    unfolding trim_def
    by (metis rev_append rev_rev_ident takeWhile_dropWhile_id)
  have 3: "list_all is_space ?a" "list_all is_space ?b"
    by (auto simp: list_all_iff dest: set_takeWhileD)
  have 4: "trim s \<noteq> [] \<Longrightarrow> \<not> is_space (last (trim s))"
    unfolding trim_def
    by (metis hd_dropWhile last_rev rev_is_Nil_conv)
  have 5: "trim s \<noteq> [] \<Longrightarrow> \<not> is_space (hd (trim s))"
  proof -
    assume n: "trim s \<noteq> []"
    have "?r \<noteq> []"
    proof
      assume e: "?r = []"
      have "trim s = []" unfolding trim_def e by simp
      with n show False by simp
    qed
    then have h: "\<not> is_space (hd ?r)" by (rule hd_dropWhile)
    from 2 n have "hd ?r = hd (trim s)" by (metis hd_append2)
    with h show ?thesis by simp
  qed
  from 1 2 3 4 5 show ?thesis by (metis append_assoc)
qed


lemma finish_batch_keeps:
  "pendingMessages (finish_batch r s) = pendingMessages s"
  "gen_calls (finish_batch r s) = gen_calls s"
  "jobs (finish_batch r s) = jobs s"
  by (auto simp: finish_batch_def after_try_def setTimeout_batch_def Let_def split: sum.splits)











subsection \<open>One generation at a time\<close>

text \<open>
  The two guards: while the flag is set, sendMessage and processBatchedMessages return
  at once and change nothing.
\<close>

lemma guards_while_generating:
  "isGeneratingResponse s \<Longrightarrow> sendMessage msg s = s \<and> processBatchedMessages s = s"
  by (simp add: sendMessage_def processBatchedMessages_def)

text \<open>
  As long as the user never stops a generation, at most one call of generateAIResponse
  is suspended at any time, and the flag is set while one is.
\<close>

lemma sendMessage_jobs:
  "jobs (sendMessage msg s) = jobs s" "isGeneratingResponse (sendMessage msg s) = isGeneratingResponse s"
  by (auto simp: sendMessage_def setTimeout_batch_def clearTimeout_def Let_def split: option.splits)

lemma processBatchedMessages_inv:
  assumes "at_most_one_job s"
  shows "at_most_one_job (processBatchedMessages s)"
proof (cases "isGeneratingResponse s \<or> pendingMessages s = []")
  case True
  with assms show ?thesis by (simp add: processBatchedMessages_def)
next
  case False
  with assms have j: "jobs s = []" by (auto simp: at_most_one_job_def)
  let ?s0 = "s\<lparr>isGeneratingResponse := True, pendingMessages := []\<rparr>"
  let ?p = "generateAIResponse (join (nl @ nl) (pendingMessages s)) (pendingMessages s) ?s0"
  from generateAIResponse_frame[of ?s0 "join (nl @ nl) (pendingMessages s)" "pendingMessages s"]
  have f: "jobs (state_of ?p) = []" "isGeneratingResponse (state_of ?p)"
    by (simp_all add: same_batch_def j)
  have "processBatchedMessages s =
        (case ?p of Suspended j s' \<Rightarrow> s'\<lparr>jobs := jobs s' @ [j]\<rparr>
         | Resolved response s' \<Rightarrow> finish_batch (Inr response) s'
         | Rejected message s' \<Rightarrow> finish_batch (Inl message) s')"
    using False by (simp add: processBatchedMessages_def)
  then show ?thesis using f
    by (cases ?p) (simp_all add: state_of_def at_most_one_job_def finish_batch_keeps)
qed

lemma advance_inv:
  assumes "at_most_one_job s" and "k < length (jobs s)" and "same_batch s (state_of p)"
  shows "at_most_one_job (advance k p)"
proof -
  from assms(1,2) have k: "k = 0" and l: "length (jobs s) = 1" and g: "isGeneratingResponse s"
    by (auto simp: at_most_one_job_def)
  from assms(3) have f: "jobs (state_of p) = jobs s" "isGeneratingResponse (state_of p) = isGeneratingResponse s"
    by (simp_all add: same_batch_def)
  show ?thesis
    using f l g k
    by (cases p) (simp_all add: advance_def state_of_def at_most_one_job_def finish_batch_keeps drop_job_def)
qed

lemma step_inv:
  assumes "at_most_one_job s" and "e \<noteq> Stop" and "step e s = Some s'"
  shows "at_most_one_job s'"
proof (cases e)
  case (Send msg)
  with assms show ?thesis by (auto simp: step_def at_most_one_job_def sendMessage_jobs)
next
  case (Type v)
  with assms show ?thesis by (auto simp: step_def at_most_one_job_def)
next
  case Stop
  with assms show ?thesis by simp
next
  case (Tick n)
  with assms show ?thesis by (auto simp: step_def at_most_one_job_def)
next
  case (TimerFires t)
  have "at_most_one_job (clearTimeout t s)" using assms(1) by (simp add: at_most_one_job_def clearTimeout_def)
  from processBatchedMessages_inv[OF this] TimerFires assms(3) show ?thesis
    by (auto simp: step_def split: if_splits)
next
  case (ListModelsDone k lm)
  with assms(3) have "k < length (jobs s)" "s' = advance k (resume_models lm (jobs s ! k) s)"
    by (auto simp: step_def split: if_splits)
  with advance_inv[OF assms(1) _ resume_models_frame] show ?thesis by simp
next
  case (FetchDone k out)
  with assms(3) have "k < length (jobs s)" "s' = advance k (resume_fetch out (jobs s ! k) s)"
    by (auto simp: step_def split: if_splits)
  with advance_inv[OF assms(1) _ resume_fetch_frame] show ?thesis by simp
qed

lemma one_generation_unless_stopped:
  "reachable_unstopped sp s \<Longrightarrow> length (jobs s) \<le> 1 \<and> (jobs s \<noteq> [] \<longrightarrow> isGeneratingResponse s)"
proof (induction rule: reachable_unstopped.induct)
  case unstopped_start
  then show ?case by (simp add: fresh_client_def)
next
  case (unstopped_step s e s')
  then have "at_most_one_job s" by (simp add: at_most_one_job_def)
  from step_inv[OF this unstopped_step(2,3)] show ?case by (simp add: at_most_one_job_def)
qed

text \<open>
  C4 fails once the user stops a generation. The first message is sent and its
  generation waits for the list of models, before tryGenerateWithKey has created its
  AbortController. The user stops: stopAIResponse finds \<open>abortController\<close> null, aborts
  nothing and resets the flag. The user sends a second message; its timer fires and
  processBatchedMessages starts a second generation. When the list of models arrives,
  the first generation goes on to its request: two \<open>generateContent\<close> requests, for the
  first and for the second message, are in flight together, neither aborted, and no
  answer has been shown yet.
\<close>

theorem stop_lets_second_generation_start:
  "map_option (\<lambda>s. (map j_wait (jobs s), map j_originalMessages (jobs s),
                    map (\<lambda>j. j_signal j \<in> set (aborted_signals s)) (jobs s),
                    length (filter (\<lambda>r. case r of GenerateContent v m k p \<Rightarrow> True | _ \<Rightarrow> False) (http_log s)),
                    dom_messages s))
     (run [Send (Some (utf16 ''hi'')), Tick 500, TimerFires 1, Stop,
           Send (Some (utf16 ''again'')), Tick 500, TimerFires 2, ListModelsDone 0 LM_Fail]
        (fresh_client (utf16 ''Be kind.'')))
   = Some ([AwaitGenerate, AwaitGenerate], [[utf16 ''hi''], [utf16 ''again'']], [False, False], 2,
           [UserMsg (utf16 ''hi''), UserMsg (utf16 ''again'')])"
  by code_simp

subsection \<open>Model fallback\<close>

text \<open>
  C2 fails on a key that the endpoint rejects with 401: the \<open>throw\<close> that is meant to
  leave the loop is caught by the \<open>catch (e)\<close> of the same \<open>try\<close>, whose
  \<open>response.text()\<close> throws in turn, and the outer \<open>catch\<close> continues with the next
  configuration. Run to its end, the loop requests all nine configurations with the
  rejected key; in the page, after the first 401 the same call, still on its first key,
  waits for the second configuration with eight left.
\<close>

theorem invalid_key_tries_every_configuration:
  "tryModelConfigs (\<lambda>cfg. invalid_key) modelConfigs None
     = (Throw ''body stream already read'', modelConfigs)
   \<and> map_option (\<lambda>s. (map (\<lambda>j. (j_key j, j_phase j, j_wait j, length (j_configs j))) (jobs s),
                       drop 1 (map (\<lambda>r. case r of GenerateContent v m k p \<Rightarrow> (m, k) | ListModels k \<Rightarrow> ([], k))
                                 (http_log s))))
       (run [Send (Some (utf16 ''hi'')), Tick 500, TimerFires 1, ListModelsDone 0 LM_Fail,
             FetchDone 0 invalid_key]
          (fresh_client (utf16 ''Be kind.'')))
     = Some ([(''AIzaSy1-embedded-key'', Primary, AwaitGenerate, 8)],
             [(''gemini-1.5-flash'', ''AIzaSy1-embedded-key''),
              (''gemini-1.5-pro'', ''AIzaSy1-embedded-key'')])"
  by code_simp

text \<open>Every state that a run of events from the fresh page ends in is reachable.\<close>

lemma run_reachable:
  "reachable sp s \<Longrightarrow> run es s = Some s' \<Longrightarrow> reachable sp s'"
proof (induction es arbitrary: s)
  case Nil
  then show ?case by simp
next
  case (Cons e es)
  then obtain s1 where "step e s = Some s1" "run es s1 = Some s'"
    by (auto split: option.splits)
  with Cons.IH[of s1] Cons.prems(1) show ?case
    by (blast intro: reachable.reach_step)
qed

text \<open>
  The parts of C2 that hold: a 404 whose error message contains \<open>not found\<close> moves on
  to the next configuration, and a loop in which every configuration is answered so
  ends in the final error.
\<close>

lemma not_found_moves_on:
  "str_includes errorMessage ''not found'' \<Longrightarrow>
   attempt cfg aborted lastError (NotOk 404 (ErrJson errorMessage errorText) retext)
     = Continue (Some (''Model '' @ fst cfg @ '' not found for API version '' @ snd cfg))"
  by (simp add: attempt_def)

lemma all_not_found_exhausts:
  "tryModelConfigs (\<lambda>cfg. model_not_found) modelConfigs None
     = (Throw ''All API model configurations failed - None of the tried models are available for this API key. Please check your API key has access to Gemini models, or try a different API key.'',
        modelConfigs)"
  by code_simp

text \<open>
  When every configuration of every stored key is answered 404, the call of
  processBatchedMessages ends by showing an error message, resets the flag, and nothing
  is left in flight: 5 \<open>ListModels\<close> requests and 45 \<open>generateContent\<close> requests
  have been made.
\<close>

lemma all_keys_fail_error_shown:
  "map_option (\<lambda>s. (dom_messages s, isGeneratingResponse s, jobs s, length (http_log s)))
     (run ([Send (Some (utf16 ''hi'')), Tick 500, TimerFires 1]
           @ concat (replicate 5 (ListModelsDone 0 LM_Fail # replicate 9 (FetchDone 0 model_not_found))))
        (fresh_client (utf16 ''Be kind.'')))
   = Some ([UserMsg (utf16 ''hi''), AIError AuthIssue], False, [], 50)"
  by code_simp

end
